theory Spec2Isabelle
  imports Main "HOL-Library.Sublist"
begin

section \<open>Values and errors\<close>

text \<open>
  An optional string property of a JavaScript object is a \<open>string option\<close>; \<open>None\<close> is
  \<^verbatim>\<open>undefined\<close>. The source tests such properties for truthiness (\<^verbatim>\<open>if (options.id)\<close>,
  \<^verbatim>\<open>!token\<close>): \<^verbatim>\<open>undefined\<close> and the empty string are falsy.
\<close>

definition truthy :: "string option \<Rightarrow> bool" where
  "truthy v = (case v of None \<Rightarrow> False | Some s \<Rightarrow> s \<noteq> [])"

text \<open>\<^verbatim>\<open>IHerokuAPIErrorOptions\<close> of \<^verbatim>\<open>api_client.ts\<close>; \<open>error_id\<close> is its property \<^verbatim>\<open>id\<close>.\<close>

record app_ref =
  app_id :: "string option"
  app_name :: "string option"

record IHerokuAPIErrorOptions =
  resource :: "string option"
  app :: "app_ref option"
  error_id :: "string option"
  message :: "string option"
  url :: "string option"

text \<open>
  The values the code throws. \<open>HTTPError status body\<close> is http-call's structured transport
  error (\<^verbatim>\<open>err.http.statusCode\<close>, \<^verbatim>\<open>err.body\<close>); \<open>HerokuAPIError msg http\<close> is the wrapped
  error of \<^verbatim>\<open>api_client.ts\<close> with its message and the error it wraps; \<open>Error\<close> is any other
  thrown error (a network failure, a \<^verbatim>\<open>CLIError\<close> of \<^verbatim>\<open>ux.error\<close>, a rejected prompt) and
  \<open>SystemError code\<close> is an error of the file system with its \<^verbatim>\<open>code\<close>; these have neither
  \<^verbatim>\<open>http\<close> nor \<^verbatim>\<open>body\<close>.
\<close>

datatype error =
    HTTPError int IHerokuAPIErrorOptions
  | HerokuAPIError string error
  | Error string
  | TypeError string
  | SyntaxError string
  | SystemError string

text \<open>\<^verbatim>\<open>err.body\<close>: the wrapped error carries the body of the error it wraps (\<^verbatim>\<open>this.body = options\<close>).\<close>

fun err_body :: "error \<Rightarrow> IHerokuAPIErrorOptions option" where
  "err_body (HTTPError status b) = Some b"
| "err_body (HerokuAPIError msg h) = err_body h"
| "err_body (Error msg) = None"
| "err_body (TypeError msg) = None"
| "err_body (SyntaxError msg) = None"
| "err_body (SystemError code) = None"

text \<open>\<^verbatim>\<open>Array.prototype.join\<close> on strings.\<close>

fun join :: "string \<Rightarrow> string list \<Rightarrow> string" where
  "join sep [] = []"
| "join sep [x] = x"
| "join sep (x # y # ys) = x @ sep @ join sep (y # ys)"

subsection \<open>The constructor of HerokuAPIError\<close>

text \<open>The \<^verbatim>\<open>info\<close> array the constructor builds (lines 30 to 33).\<close>

definition HerokuAPIError_info :: "IHerokuAPIErrorOptions \<Rightarrow> string list" where
  "HerokuAPIError_info options =
     (case error_id options of
        Some i \<Rightarrow> if i \<noteq> [] then [''Error ID: '' @ i] else []
      | None \<Rightarrow> [])
   @ (case app options of
        Some a \<Rightarrow> (case app_name a of
                     Some n \<Rightarrow> if n \<noteq> [] then [''App: '' @ n] else []
                   | None \<Rightarrow> [])
      | None \<Rightarrow> [])
   @ (case url options of
        Some u \<Rightarrow> if u \<noteq> [] then [''See '' @ u @ '' for more information.''] else []
      | None \<Rightarrow> [])"

text \<open>The argument of \<^verbatim>\<open>super(...)\<close> (lines 34 and 35), for the server's message \<open>m\<close>.\<close>

definition HerokuAPIError_message :: "string \<Rightarrow> IHerokuAPIErrorOptions \<Rightarrow> string" where
  "HerokuAPIError_message m options =
     (let info = HerokuAPIError_info options in
      if info \<noteq> [] then join [CHR 0x0A] ([m, []] @ info) else m)"

text \<open>
  \<^verbatim>\<open>new HerokuAPIError(httpError)\<close>. \<open>Inr\<close> is the constructed error; \<open>Inl\<close> is what the
  constructor itself throws: its argument when the body has no (or an empty) message
  (line 29), and a \<open>TypeError\<close> when the argument has no body at all, since line 29 then
  reads a property of \<^verbatim>\<open>undefined\<close>.
\<close>

definition new_HerokuAPIError :: "error \<Rightarrow> error + error" where
  "new_HerokuAPIError httpError =
     (case err_body httpError of
        None \<Rightarrow> Inl (TypeError ''Cannot read property message of undefined'')
      | Some options \<Rightarrow>
          (case message options of
             None \<Rightarrow> Inl httpError
           | Some m \<Rightarrow>
               if m = [] then Inl httpError
               else Inr (HerokuAPIError (HerokuAPIError_message m options) httpError)))"

text \<open>\<^verbatim>\<open>throw new HerokuAPIError(err)\<close>: the value that ends up thrown.\<close>

definition throw_new_HerokuAPIError :: "error \<Rightarrow> error" where
  "throw_new_HerokuAPIError err = (case new_HerokuAPIError err of Inl e \<Rightarrow> e | Inr e \<Rightarrow> e)"

section \<open>JSON values\<close>

text \<open>
  What \<^verbatim>\<open>JSON.parse\<close> returns. The parser itself belongs to the JavaScript runtime and is
  a parameter of the model (\<open>JSON_parse\<close> below); \<open>json_truthy\<close> is JavaScript truthiness of
  a property that may be missing, and \<open>spread\<close> lists the own enumerable properties that
  \<^verbatim>\<open>{...value}\<close> copies, in order (for an array or a string, its elements under their
  indices). Numbers are whole numbers here; the client only copies them.
\<close>

datatype json =
    JNull
  | JBool bool
  | JNumber int
  | JString string
  | JArray "json list"
  | JObject "(string \<times> json) list"

fun json_truthy :: "json option \<Rightarrow> bool" where
  "json_truthy None = False"
| "json_truthy (Some JNull) = False"
| "json_truthy (Some (JBool b)) = b"
| "json_truthy (Some (JNumber n)) = (n \<noteq> 0)"
| "json_truthy (Some (JString s)) = (s \<noteq> [])"
| "json_truthy (Some (JArray xs)) = True"
| "json_truthy (Some (JObject kvs)) = True"

fun show_nat :: "nat \<Rightarrow> string" where
  "show_nat n =
     (if n < 10 then [char_of (48 + n)]
      else show_nat (n div 10) @ [char_of (48 + n mod 10)])"

fun spread :: "json \<Rightarrow> (string \<times> json) list" where
  "spread (JObject kvs) = kvs"
| "spread (JArray xs) = zip (map show_nat [0..<length xs]) xs"
| "spread (JString s) = zip (map show_nat [0..<length s]) (map (\<lambda>ch. JString [ch]) s)"
| "spread JNull = []"
| "spread (JBool b) = []"
| "spread (JNumber n) = []"

section \<open>The API client: step-up state and the request engine\<close>

text \<open>
  \<^verbatim>\<open>HTTPRequestOptions\<close> of http-call, as far as the client touches it: the optional
  \<^verbatim>\<open>headers\<close> object.
\<close>

record HTTPRequestOptions =
  headers :: "(string \<rightharpoonup> string) option"

text \<open>
  A promise of the step-up table settles once: fulfilled, or rejected with an error.
  A task is the promise \<^verbatim>\<open>self.twoFactorPrompt().then(factor => self.preauth(app, factor))\<close>
  of line 82: the app it preauthorizes, which call of \<^verbatim>\<open>twoFactorPrompt\<close> feeds it, and its
  state (\<open>None\<close> while pending).
\<close>

datatype outcome = Fulfilled | Rejected error

record task =
  task_app :: string
  task_prompt :: nat
  settled :: "outcome option"

text \<open>
  The client. \<open>opt_required\<close> and \<open>opt_preauth\<close> are \<^verbatim>\<open>options.required\<close> and
  \<^verbatim>\<open>options.preauth\<close> after lines 49 and 50; \<open>priv_auth\<close> is the private field
  \<^verbatim>\<open>_auth\<close>; \<open>defaults_host\<close> and \<open>defaults_headers\<close> are the \<^verbatim>\<open>opts\<close> of line 57, the defaults of
  the client's http class; \<open>preauthPromises\<close> holds
  the own properties of the object created as \<^verbatim>\<open>{}\<close> on line 54, each a handle into
  \<open>promises\<close>, the promise objects in order of creation; \<open>prompts\<close> counts the calls of
  \<^verbatim>\<open>twoFactorPrompt\<close>; \<open>attempts\<close> records, for every call of the transport
  (\<^verbatim>\<open>super.request\<close>, line 93), the value of \<^verbatim>\<open>retries\<close> at that call, oldest first.
\<close>

record client =
  opt_required :: bool
  opt_preauth :: bool
  priv_auth :: "string option"
  defaults_host :: string
  defaults_headers :: "string \<rightharpoonup> json"
  preauthPromises :: "string \<rightharpoonup> nat"
  promises :: "task list"
  prompts :: nat
  attempts :: "int list"

text \<open>
  \<^verbatim>\<open>self.preauthPromises[app]\<close>. The table is a plain object literal, so a key that is not
  an own property is looked up on \<^verbatim>\<open>Object.prototype\<close>: for these names the read gives a
  function (for \<^verbatim>\<open>__proto__\<close> the prototype object), which is truthy and is not a promise.
\<close>

definition Object_prototype :: "string list" where
  "Object_prototype =
     [''constructor'', ''hasOwnProperty'', ''isPrototypeOf'', ''propertyIsEnumerable'',
      ''toLocaleString'', ''toString'', ''valueOf'', ''__proto__'',
      ''__defineGetter__'', ''__defineSetter__'', ''__lookupGetter__'', ''__lookupSetter__'']"

datatype slot = Undefined | Promise nat | Inherited

definition get_preauthPromise :: "client \<Rightarrow> string \<Rightarrow> slot" where
  "get_preauthPromise c k =
     (case preauthPromises c k of
        Some h \<Rightarrow> Promise h
      | None \<Rightarrow> if k \<in> set Object_prototype then Inherited else Undefined)"

text \<open>\<^verbatim>\<open>err.body.app ? err.body.app.name : null\<close> (line 73).\<close>

definition err_app :: "IHerokuAPIErrorOptions \<Rightarrow> string option" where
  "err_app b = (case app b of None \<Rightarrow> None | Some a \<Rightarrow> app_name a)"

text \<open>
  The part of \<^verbatim>\<open>twoFactorRetry\<close> that runs before its first \<^verbatim>\<open>await\<close> (lines 73 to 85).
  JavaScript runs it without interruption. It either starts a prompt of the caller's own
  (\<open>PromptDirect k\<close>, the \<open>k\<close>-th call of \<^verbatim>\<open>twoFactorPrompt\<close>), or it waits for the table's
  entry, which it creates first when the read on line 81 is falsy.
\<close>

datatype action = PromptDirect nat | Await slot

definition twoFactorRetry_sync :: "string option \<Rightarrow> client \<Rightarrow> action \<times> client" where
  "twoFactorRetry_sync app_opt c =
     (case app_opt of
        None \<Rightarrow> (PromptDirect (prompts c), c\<lparr>prompts := Suc (prompts c)\<rparr>)
      | Some a \<Rightarrow>
          if a = [] \<or> \<not> opt_preauth c
          then (PromptDirect (prompts c), c\<lparr>prompts := Suc (prompts c)\<rparr>)
          else
            (case get_preauthPromise c a of
               Undefined \<Rightarrow>
                 (Await (Promise (length (promises c))),
                  c\<lparr>preauthPromises := (preauthPromises c)(a \<mapsto> length (promises c)),
                    promises := promises c @ [\<lparr>task_app = a, task_prompt = prompts c, settled = None\<rparr>],
                    prompts := Suc (prompts c)\<rparr>)
             | s \<Rightarrow> (Await s, c)))"

text \<open>A pending promise settles; a settled one keeps its outcome.\<close>

definition settle :: "nat \<Rightarrow> outcome \<Rightarrow> client \<Rightarrow> client" where
  "settle h out c =
     (if h < length (promises c) \<and> settled (promises c ! h) = None
      then c\<lparr>promises := (promises c)[h := (promises c ! h)\<lparr>settled := Some out\<rparr>]\<rparr>
      else c)"

text \<open>
  What the caller does when its \<^verbatim>\<open>await\<close> on line 85 returns: a rejected promise makes the
  \<^verbatim>\<open>await\<close> throw, so the caller fails with that error and line 86 is not reached;
  otherwise the caller retries its request.
\<close>

datatype 'e continuation = Retry | Throw 'e

definition twoFactorRetry_resume :: "outcome \<Rightarrow> error continuation" where
  "twoFactorRetry_resume out = (case out of Fulfilled \<Rightarrow> Retry | Rejected e \<Rightarrow> Throw e)"

subsection \<open>Requests in flight together\<close>

text \<open>
  JavaScript runs one task at a time and switches between tasks only at an \<^verbatim>\<open>await\<close>. So
  for the step-up table a run of the client with any number of requests in flight is a
  sequence of two kinds of steps, in any order: a request that received the step-up error
  runs the first part of \<^verbatim>\<open>twoFactorRetry\<close> for the app named in its error (\<open>StepUp\<close>), or a
  pending promise settles (\<open>Settle\<close>). \<open>actions\<close> lists what each \<open>StepUp\<close> of a run did,
  in order, with the app it was for.
\<close>

datatype event = StepUp "string option" | Settle nat outcome

fun step :: "event \<Rightarrow> client \<Rightarrow> client" where
  "step (StepUp a) c = snd (twoFactorRetry_sync a c)"
| "step (Settle h out) c = settle h out c"

fun run :: "event list \<Rightarrow> client \<Rightarrow> client" where
  "run [] c = c"
| "run (e # evs) c = run evs (step e c)"

fun actions :: "event list \<Rightarrow> client \<Rightarrow> (string option \<times> action) list" where
  "actions [] c = []"
| "actions (StepUp a # evs) c =
     (a, fst (twoFactorRetry_sync a c)) # actions evs (snd (twoFactorRetry_sync a c))"
| "actions (Settle h out # evs) c = actions evs (settle h out c)"

text \<open>
  The table and the promises fit together: the table holds \<open>a \<mapsto> h\<close> exactly when the
  \<open>h\<close>-th promise is the task for app \<open>a\<close>.
\<close>

definition table_ok :: "client \<Rightarrow> bool" where
  "table_ok c =
     (\<forall>a h. preauthPromises c a = Some h \<longleftrightarrow>
              h < length (promises c) \<and> task_app (promises c ! h) = a)"

subsection \<open>One request, run to completion\<close>

text \<open>
  The collaborators of the engine. \<open>super_request n url opts\<close> is what the transport answers
  to its \<open>n\<close>-th call; \<open>twoFactorPrompt k\<close> is the outcome of the \<open>k\<close>-th prompt; and
  \<open>preauth app factor\<close> is the outcome of \<^verbatim>\<open>self.preauth(app, factor)\<close>, a PUT issued
  through http-call's \<^verbatim>\<open>put\<close> (\<open>None\<close>: it succeeded). The mutex inside \<^verbatim>\<open>twoFactorPrompt\<close>
  (module \<^verbatim>\<open>mutex\<close>, not among the sources) only makes the prompts of different callers
  appear one after the other; the world numbers the prompts in the order they are asked.
  The PUT of \<^verbatim>\<open>preauth\<close> goes through \<^verbatim>\<open>request\<close> again, as a call of its own with its
  own budget; here it is taken to settle, and its calls of the transport are not among
  those of the request that waits for it. (A PUT that never settles is, in the step model
  above, a task for which no \<open>Settle\<close> step occurs.)
\<close>

record 'r world =
  super_request :: "nat \<Rightarrow> string \<Rightarrow> HTTPRequestOptions \<Rightarrow> error + 'r"
  twoFactorPrompt :: "nat \<Rightarrow> error + string"
  preauth :: "string \<Rightarrow> string \<Rightarrow> error option"

text \<open>The outcome of a task: the prompt, then the preauthorization with its answer.\<close>

definition task_outcome :: "'r world \<Rightarrow> task \<Rightarrow> outcome" where
  "task_outcome W t =
     (case twoFactorPrompt W (task_prompt t) of
        Inl e \<Rightarrow> Rejected e
      | Inr factor \<Rightarrow>
          (case preauth W (task_app t) factor of Some e \<Rightarrow> Rejected e | None \<Rightarrow> Fulfilled))"

text \<open>
  \<^verbatim>\<open>await self.preauthPromises[app]\<close> when no other request runs: a pending promise settles
  with the outcome of its task; a value that is not a promise is returned at once. (A
  handle read from the table always names a promise of the store, see \<open>table_ok\<close>; the
  last but one line is for handles that do not.)
\<close>

definition await_slot :: "'r world \<Rightarrow> slot \<Rightarrow> client \<Rightarrow> outcome \<times> client" where
  "await_slot W s c =
     (case s of
        Promise h \<Rightarrow>
          if h < length (promises c)
          then (case settled (promises c ! h) of
                  Some out \<Rightarrow> (out, c)
                | None \<Rightarrow> (task_outcome W (promises c ! h),
                            settle h (task_outcome W (promises c ! h)) c))
          else (Fulfilled, c)
      | _ \<Rightarrow> (Fulfilled, c))"

text \<open>\<^verbatim>\<open>opts.headers = opts.headers || {}; opts.headers['Heroku-Two-Factor-Code'] = code\<close>.\<close>

definition set_two_factor_code :: "string \<Rightarrow> HTTPRequestOptions \<Rightarrow> HTTPRequestOptions" where
  "set_two_factor_code code opts =
     opts\<lparr>headers := Some ((case headers opts of None \<Rightarrow> Map.empty | Some hs \<Rightarrow> hs)
                              (''Heroku-Two-Factor-Code'' \<mapsto> code))\<rparr>"

text \<open>
  \<^verbatim>\<open>APIHTTPClient.request\<close> (lines 90 to 103) and \<^verbatim>\<open>APIHTTPClient.twoFactorRetry\<close>
  (lines 67 to 88). The result is the value returned (\<open>Inr\<close>) or thrown (\<open>Inl\<close>);
  \<open>retries - 1\<close> is the counter after the decrement of line 91, under which the call of
  the transport and everything after it run.
\<close>

function request :: "'r world \<Rightarrow> string \<Rightarrow> HTTPRequestOptions \<Rightarrow> int \<Rightarrow> client \<Rightarrow> (error + 'r) \<times> client"
  and twoFactorRetry :: "'r world \<Rightarrow> error \<Rightarrow> string \<Rightarrow> HTTPRequestOptions \<Rightarrow> int \<Rightarrow> client \<Rightarrow> (error + 'r) \<times> client"
where
  "request W u opts retries c =
     (case super_request W (length (attempts c)) u opts of
        Inr r \<Rightarrow> (Inr r, c\<lparr>attempts := attempts c @ [retries - 1]\<rparr>)
      | Inl err \<Rightarrow>
          (case err of
             HTTPError status b \<Rightarrow>
               if retries - 1 > 0
               then if status = 403 \<and> error_id b = Some ''two_factor''
                    then twoFactorRetry W err u opts (retries - 1)
                           (c\<lparr>attempts := attempts c @ [retries - 1]\<rparr>)
                    else (Inl (throw_new_HerokuAPIError err), c\<lparr>attempts := attempts c @ [retries - 1]\<rparr>)
               else (Inl (throw_new_HerokuAPIError err), c\<lparr>attempts := attempts c @ [retries - 1]\<rparr>)
           | _ \<Rightarrow> (Inl err, c\<lparr>attempts := attempts c @ [retries - 1]\<rparr>)))"
| "twoFactorRetry W err u opts retries c =
     (case twoFactorRetry_sync (case err_body err of None \<Rightarrow> None | Some b \<Rightarrow> err_app b) c of
        (PromptDirect k, c1) \<Rightarrow>
          (case twoFactorPrompt W k of
             Inl e \<Rightarrow> (Inl e, c1)
           | Inr code \<Rightarrow> request W u (set_two_factor_code code opts) retries c1)
      | (Await s, c1) \<Rightarrow>
          (case await_slot W s c1 of
             (out, c2) \<Rightarrow>
               (case twoFactorRetry_resume out of
                  Throw e \<Rightarrow> (Inl e, c2)
                | Retry \<Rightarrow> request W u opts retries c2)))"
  by pat_completeness auto
termination
  by (relation "measure (\<lambda>x. case x of
                   Inl (W, u, opts, retries, c) \<Rightarrow> 2 * nat retries
                 | Inr (W, err, u, opts, retries, c) \<Rightarrow> 2 * nat retries + 1)") auto

section \<open>Credentials and construction\<close>

text \<open>
  The process-wide collaborators: the environment \<^verbatim>\<open>process.env\<close>; the credential store
  (netrc-parser), with the file on disk and the \<^verbatim>\<open>machines\<close> object in memory, each machine
  a set of named properties (\<^verbatim>\<open>login\<close>, \<^verbatim>\<open>password\<close>, ...); the warnings printed; the requests
  issued through http-call's \<^verbatim>\<open>HTTP\<close> by \<^verbatim>\<open>login.ts\<close>, in the order of issue, each with the
  token or the arguments it carries; the number of prompts shown; the URLs opened in the
  browser; the settings file \<^verbatim>\<open>login.json\<close> (what reading it gives) and the field
  \<^verbatim>\<open>settings\<close> of the \<^verbatim>\<open>Login\<close> object.
  \<^verbatim>\<open>loadSync\<close> and \<^verbatim>\<open>load\<close> replace \<open>machines\<close> by the file, \<^verbatim>\<open>save\<close> writes \<open>machines\<close>
  to the file.
\<close>

type_synonym machine = "string \<rightharpoonup> string"

datatype warning = Warning string | WarnError error

datatype call =
    DeleteSession string
  | GetAuthorizations string
  | GetDefaultAuthorization "string option"
  | DeleteAuthorization "string option" string
  | PostAuthorizations string string int "string option"
  | PostAuth string
  | GetCli string string
  | GetAccount "string option"

record deps =
  env :: "string \<rightharpoonup> string"
  netrc_file :: "string \<rightharpoonup> machine"
  machines :: "string \<rightharpoonup> machine"
  warnings :: "warning list"
  calls :: "call list"
  prompted :: nat
  opened :: "string list"
  settings_file :: "error + (string \<rightharpoonup> string)"
  settings :: "string \<rightharpoonup> string"

text \<open>
  The module \<^verbatim>\<open>vars\<close> is not among the sources; the three values the code reads from it
  are parameters.
\<close>

record vars =
  apiUrl :: string
  apiHost :: string
  httpGitHost :: string

text \<open>The getter \<^verbatim>\<open>APIClient.auth\<close> (lines 114 to 124).\<close>

definition auth :: "vars \<Rightarrow> client \<Rightarrow> deps \<Rightarrow> string option \<times> client \<times> deps" where
  "auth v c d =
     (if \<not> truthy (priv_auth c)
      then
        let d1 = (if truthy (env d ''HEROKU_API_TOKEN'') \<and> \<not> truthy (env d ''HEROKU_API_KEY'')
                  then d\<lparr>warnings := warnings d
                          @ [Warning ''HEROKU_API_TOKEN is set but you probably meant HEROKU_API_KEY'']\<rparr>
                  else d);
            c1 = c\<lparr>priv_auth := env d ''HEROKU_API_KEY''\<rparr>
        in
          if \<not> truthy (priv_auth c1)
          then
            let d2 = d1\<lparr>machines := netrc_file d1\<rparr>;
                c2 = c1\<lparr>priv_auth := (case machines d2 (apiHost v) of
                                        None \<Rightarrow> None
                                      | Some m \<Rightarrow> m ''password'')\<rparr>
            in (priv_auth c2, c2, d2)
          else (priv_auth c1, c1, d1)
      else (priv_auth c, c, d))"

text \<open>
  An assignment \<^verbatim>\<open>this.heroku.auth = value\<close>, as \<^verbatim>\<open>login.ts\<close> makes on lines 328, 351 and
  436. The class \<^verbatim>\<open>APIClient\<close> declares \<^verbatim>\<open>auth\<close> as an accessor with a getter and no setter
  (lines 114 to 124), and the body of a class runs in strict mode, where an assignment to
  such a property throws a \<open>TypeError\<close>: the field \<^verbatim>\<open>_auth\<close> is not touched. \<open>Inr\<close> would be
  the client after the assignment.
\<close>

definition set_auth :: "string option \<Rightarrow> client \<Rightarrow> error + client" where
  "set_auth assigned c = Inl (TypeError ''Cannot set property auth of #<APIClient> which has only a getter'')"

text \<open>
  The runtime functions the constructor calls: \<^verbatim>\<open>JSON.parse\<close>, and the host of a parsed
  URL (\<^verbatim>\<open>new url.URL(u).host\<close>); both may throw.
\<close>

record runtime =
  JSON_parse :: "string \<Rightarrow> error + json"
  URL_host :: "string \<Rightarrow> error + string"

record IConfig =
  version :: string
  platform :: string
  config_name :: string
  channel :: string
  dataDir :: string

record IOptions =
  required :: "bool option"
  preauth_option :: "bool option"

text \<open>
  The constructor of \<^verbatim>\<open>APIClient\<close> (lines 47 to 65), up to the creation of the http class.
  \<^verbatim>\<open>process.env.HEROKU_HEADERS || '{}'\<close> takes the default for an unset and for an empty
  variable.
\<close>

definition new_APIClient :: "runtime \<Rightarrow> vars \<Rightarrow> IConfig \<Rightarrow> IOptions \<Rightarrow> deps \<Rightarrow> error + client \<times> deps" where
  "new_APIClient rt v config options d =
     (case URL_host rt (apiUrl v) of
        Inl e \<Rightarrow> Inl e
      | Inr apiUrl_host \<Rightarrow>
          (case JSON_parse rt (case env d ''HEROKU_HEADERS'' of
                                 None \<Rightarrow> ''{}''
                               | Some s \<Rightarrow> if s = [] then ''{}'' else s) of
             Inl e \<Rightarrow> Inl e
           | Inr envHeaders \<Rightarrow>
               (case auth v
                       \<lparr>opt_required = (case required options of None \<Rightarrow> True | Some r \<Rightarrow> r),
                        opt_preauth = (preauth_option options \<noteq> Some False),
                        priv_auth = None,
                        defaults_host = apiUrl_host,
                        defaults_headers = Map.empty,
                        preauthPromises = Map.empty, promises = [], prompts = 0, attempts = []\<rparr>
                       d of
                  (a, c, d') \<Rightarrow>
                    let hs = fold (\<lambda>kv m. m(fst kv \<mapsto> snd kv)) (spread envHeaders)
                               [''accept'' \<mapsto> JString ''application/vnd.heroku+json; version=3'',
                                ''user-agent'' \<mapsto>
                                   JString (''heroku-cli/'' @ version config @ '' '' @ platform config)]
                    in Inr (c\<lparr>defaults_headers :=
                                (case a of
                                   None \<Rightarrow> hs
                                 | Some tok \<Rightarrow>
                                     if tok \<noteq> [] \<and> \<not> json_truthy (hs ''authorization'')
                                     then hs(''authorization'' \<mapsto> JString (''Bearer '' @ tok))
                                     else hs)\<rparr>,
                            d'))))"

subsection \<open>Example environments\<close>

definition heroku_vars :: vars where
  "heroku_vars =
     \<lparr>apiUrl = ''https://api.heroku.com'', apiHost = ''api.heroku.com'',
      httpGitHost = ''git.heroku.com''\<rparr>"

definition empty_deps :: deps where
  "empty_deps =
     \<lparr>env = Map.empty, netrc_file = Map.empty, machines = Map.empty, warnings = [],
      calls = [], prompted = 0, opened = [], settings_file = Inl (SystemError ''ENOENT''),
      settings = Map.empty\<rparr>"

text \<open>The store of the repository's test: \<^verbatim>\<open>{'api.heroku.com': {password: 'mypass'}}\<close>.\<close>

definition mypass_netrc :: "string \<rightharpoonup> machine" where
  "mypass_netrc = [''api.heroku.com'' \<mapsto> [''password'' \<mapsto> ''mypass'']]"

text \<open>
  A runtime that answers as \<^verbatim>\<open>JSON.parse\<close> does on the texts the examples use: it parses
  \<^verbatim>\<open>{}\<close> and rejects the empty text and \<^verbatim>\<open>{oops\<close>.
\<close>

definition example_runtime :: runtime where
  "example_runtime =
     \<lparr>JSON_parse = (\<lambda>s. if s = ''{}'' then Inr (JObject [])
                         else if s = [] then Inl (SyntaxError ''Unexpected end of JSON input'')
                         else Inl (SyntaxError ''Unexpected token o in JSON at position 1'')),
      URL_host = (\<lambda>u. Inr ''api.heroku.com'')\<rparr>"

definition example_config :: IConfig where
  "example_config =
     \<lparr>version = ''1.0.0'', platform = ''linux-x64'', config_name = ''heroku'',
      channel = ''stable'', dataDir = ''/home/user/.local/share/heroku''\<rparr>"

definition default_options :: IOptions where
  "default_options = \<lparr>required = None, preauth_option = None\<rparr>"

text \<open>Only the deprecated variable is set, and the store has no entry.\<close>

definition token_only_deps :: deps where
  "token_only_deps = empty_deps\<lparr>env := [''HEROKU_API_TOKEN'' \<mapsto> ''secret'']\<rparr>"

subsection \<open>Example runs of the engine\<close>

text \<open>
  A client as the constructor leaves it, with preauthorization enabled and no credential,
  and the error body of the repository's step-up scenario,
  \<^verbatim>\<open>{id: 'two_factor', app: {name: 'myapp'}}\<close>, which has no message.
\<close>

definition fresh_client :: client where
  "fresh_client =
     \<lparr>opt_required = True, opt_preauth = True, priv_auth = None,
      defaults_host = ''api.heroku.com'',
      defaults_headers = [''accept'' \<mapsto> JString ''application/vnd.heroku+json; version=3'',
                          ''user-agent'' \<mapsto> JString ''heroku-cli/1.0.0 linux-x64''],
      preauthPromises = Map.empty, promises = [], prompts = 0, attempts = []\<rparr>"

definition no_opts :: HTTPRequestOptions where
  "no_opts = \<lparr>headers = None\<rparr>"

definition two_factor_body :: IHerokuAPIErrorOptions where
  "two_factor_body =
     \<lparr>resource = None, app = Some \<lparr>app_id = None, app_name = Some ''myapp''\<rparr>,
      error_id = Some ''two_factor'', message = None, url = None\<rparr>"

definition not_found_body :: IHerokuAPIErrorOptions where
  "not_found_body =
     \<lparr>resource = Some ''app'', app = Some \<lparr>app_id = None, app_name = Some ''myapp''\<rparr>,
      error_id = Some ''not_found'', message = Some ''Could not find that app.'',
      url = Some ''https://devcenter.heroku.com''\<rparr>"

text \<open>A server that answers every call for the request with the step-up error, and
  accepts the preauthorization; the prompt is answered.\<close>

definition step_up_forever :: "unit world" where
  "step_up_forever =
     \<lparr>super_request = (\<lambda>n u opts. Inl (HTTPError 403 two_factor_body)),
      twoFactorPrompt = (\<lambda>k. Inr ''123456''),
      preauth = (\<lambda>a factor. None)\<rparr>"

text \<open>A server that answers every call for the request with 404 and a full error body.\<close>

definition not_found_server :: "unit world" where
  "not_found_server =
     \<lparr>super_request = (\<lambda>n u opts. Inl (HTTPError 404 not_found_body)),
      twoFactorPrompt = (\<lambda>k. Inr ''123456''),
      preauth = (\<lambda>a factor. None)\<rparr>"

text \<open>The same with the step-up error carrying a message.\<close>

definition two_factor_message_body :: IHerokuAPIErrorOptions where
  "two_factor_message_body = two_factor_body\<lparr>message := Some ''Two-factor code required.''\<rparr>"

definition step_up_with_message :: "unit world" where
  "step_up_with_message =
     step_up_forever\<lparr>super_request := (\<lambda>n u opts. Inl (HTTPError 403 two_factor_message_body))\<rparr>"

text \<open>A server that demands step-up for an app named \<^verbatim>\<open>constructor\<close>.\<close>

definition constructor_app :: "unit world" where
  "constructor_app =
     step_up_forever\<lparr>super_request :=
       (\<lambda>n u opts. Inl (HTTPError 403
          (two_factor_body\<lparr>app := Some \<lparr>app_id = None, app_name = Some ''constructor''\<rparr>\<rparr>)))\<rparr>"


text \<open>
  Three requests for \<^verbatim>\<open>myapp\<close> and one for \<^verbatim>\<open>other\<close> receive the step-up error while in
  flight together; the task for \<^verbatim>\<open>myapp\<close> settles before the last of them arrives.
\<close>

definition four_in_flight :: "event list" where
  "four_in_flight =
     [StepUp (Some ''myapp''), StepUp (Some ''other''), StepUp (Some ''myapp''),
      Settle 0 Fulfilled, StepUp (Some ''myapp'')]"

section \<open>Login and logout\<close>

text \<open>
  The part of \<^verbatim>\<open>Heroku.OAuthAuthorization\<close> and \<^verbatim>\<open>Heroku.Account\<close> that \<^verbatim>\<open>login.ts\<close> reads, the
  \<^verbatim>\<open>NetrcEntry\<close> a login strategy returns (\<^verbatim>\<open>login\<close> and \<^verbatim>\<open>password\<close>, either of which can be
  \<^verbatim>\<open>undefined\<close> behind the non-null assertions of the source), and \<^verbatim>\<open>Login.Options\<close>.
\<close>

record AccessToken =
  token :: "string option"

record User =
  email :: "string option"

record OAuthAuthorization =
  access_token :: "AccessToken option"
  authorization_id :: "string option"
  user :: "User option"

record NetrcEntry =
  entry_login :: "string option"
  entry_password :: "string option"

record Login_Options =
  expiresIn :: "int option"
  opt_method :: "string option"

record login_urls =
  browser_url :: string
  cli_url :: string
  url_token :: string

record cli_auth =
  cli_error :: "string option"
  cli_access_token :: "string option"

text \<open>
  The collaborators of \<^verbatim>\<open>login.ts\<close>: what the server answers to each request (by the
  arguments of the request), the answer to the \<open>n\<close>-th prompt, whether the browser opens,
  whether writing the settings file fails, which of several rejected deletions of a
  \<^verbatim>\<open>Promise.all\<close> rejects first (\<open>race\<close>), and the runtime's \<^verbatim>\<open>encodeURIComponent\<close>.
  The two requests of \<^verbatim>\<open>logout\<close> run side by side; \<open>session_answer\<close> says how many of the
  answers that the second of them waits for, one after the other, have arrived when the
  answer to the session deletion arrives.
\<close>

record login_world =
  http_delete_session :: "string \<Rightarrow> error option"
  http_get_authorizations :: "string \<Rightarrow> error + OAuthAuthorization list"
  http_get_default_authorization :: "string option \<Rightarrow> error + OAuthAuthorization"
  http_delete_authorization :: "string option \<Rightarrow> string \<Rightarrow> error option"
  http_post_authorizations :: "string \<Rightarrow> string \<Rightarrow> int \<Rightarrow> string option \<Rightarrow> error + OAuthAuthorization"
  http_post_auth :: "string \<Rightarrow> error + login_urls"
  http_get_cli :: "string \<Rightarrow> string \<Rightarrow> error + cli_auth"
  http_get_account :: "string option \<Rightarrow> error + User"
  ux_prompt :: "nat \<Rightarrow> error + string"
  opn :: "string \<Rightarrow> error option"
  fs_write :: "error option"
  race :: nat
  session_answer :: nat
  encodeURIComponent :: "string \<Rightarrow> string"

subsection \<open>Logout\<close>

text \<open>
  \<^verbatim>\<open>err.http\<close> is set on http-call's error and on the wrapped error; \<^verbatim>\<open>err.http.statusCode\<close>
  and \<^verbatim>\<open>err.http.body\<close> are the status and the body of the response.
\<close>

definition has_http :: "error \<Rightarrow> bool" where
  "has_http err = (case err of HTTPError s b \<Rightarrow> True | HerokuAPIError m h \<Rightarrow> True | _ \<Rightarrow> False)"

definition http_status :: "error \<Rightarrow> int option" where
  "http_status err =
     (case err of
        HTTPError s b \<Rightarrow> Some s
      | HerokuAPIError m h \<Rightarrow> (case h of HTTPError s b \<Rightarrow> Some s | _ \<Rightarrow> None)
      | _ \<Rightarrow> None)"

definition http_body :: "error \<Rightarrow> IHerokuAPIErrorOptions option" where
  "http_body err =
     (case err of
        HTTPError s b \<Rightarrow> Some b
      | HerokuAPIError m h \<Rightarrow> err_body h
      | _ \<Rightarrow> None)"

text \<open>
  The two conditions under which the handlers of \<^verbatim>\<open>logout\<close> return instead of rethrowing:
  that of line 273 (the session is already gone), and that of lines 276 and 300 (the token
  is no longer valid).
\<close>

definition session_gone :: "error \<Rightarrow> bool" where
  "session_gone err =
     (http_status err = Some 404
      \<and> (case http_body err of
            None \<Rightarrow> False
          | Some b \<Rightarrow> error_id b = Some ''not_found'' \<and> resource b = Some ''session''))"

definition unauthorized :: "error \<Rightarrow> bool" where
  "unauthorized err =
     (http_status err = Some 401
      \<and> (case http_body err of None \<Rightarrow> False | Some b \<Rightarrow> error_id b = Some ''unauthorized''))"

text \<open>The handler of the session deletion (lines 271 to 280): \<open>Inr\<close> returns, \<open>Inl\<close> rethrows.\<close>

definition catch_session :: "error \<Rightarrow> error + unit" where
  "catch_session err =
     (if \<not> has_http err then Inl err
      else if session_gone err then Inr ()
      else if unauthorized err then Inr ()
      else Inl err)"

text \<open>The handler of the authorizations chain (lines 298 to 304).\<close>

definition catch_authorizations :: "error \<Rightarrow> error + unit" where
  "catch_authorizations err =
     (if \<not> has_http err then Inl err
      else if unauthorized err then Inr ()
      else Inl err)"

text \<open>
  \<^verbatim>\<open>Promise.all\<close> over the results of requests that were all issued: it fulfils when
  none is rejected, and otherwise rejects with the rejection that came first.
\<close>

definition Promise_all :: "login_world \<Rightarrow> (error + unit) list \<Rightarrow> error + unit" where
  "Promise_all W rs =
     (case List.map_filter (\<lambda>r. case r of Inl e \<Rightarrow> Some e | Inr u \<Rightarrow> None) rs of
        [] \<Rightarrow> Inr ()
      | e # es \<Rightarrow> Inl ((e # es) ! (race W mod length (e # es))))"

text \<open>
  The condition of line 405, under which \<^verbatim>\<open>defaultToken\<close> returns \<^verbatim>\<open>undefined\<close>: the
  account has no default authorization. (The source reads the id from \<^verbatim>\<open>err.http.body\<close> and
  the resource from \<^verbatim>\<open>err.body\<close>.)
\<close>

definition authorization_gone :: "error \<Rightarrow> bool" where
  "authorization_gone err =
     (http_status err = Some 404
      \<and> (case http_body err of None \<Rightarrow> False | Some b \<Rightarrow> error_id b = Some ''not_found'')
      \<and> (case err_body err of None \<Rightarrow> False | Some b \<Rightarrow> resource b = Some ''authorization''))"

text \<open>\<^verbatim>\<open>Login.defaultToken\<close> (lines 399 to 409).\<close>

definition defaultToken :: "vars \<Rightarrow> login_world \<Rightarrow> client \<Rightarrow> deps \<Rightarrow> (error + string option) \<times> client \<times> deps" where
  "defaultToken v W c d =
     (case auth v c d of
        (cur, c1, d1) \<Rightarrow>
          (case http_get_default_authorization W cur of
             Inr authorization \<Rightarrow>
               (Inr (case access_token authorization of None \<Rightarrow> None | Some t \<Rightarrow> token t),
                c1, d1\<lparr>calls := calls d1 @ [GetDefaultAuthorization cur]\<rparr>)
           | Inl err \<Rightarrow>
               (if \<not> has_http err then Inl err
                else if authorization_gone err then Inr None
                else if unauthorized err then Inr None
                else Inl err,
                c1, d1\<lparr>calls := calls d1 @ [GetDefaultAuthorization cur]\<rparr>)))"

text \<open>
  The filter of line 294, \<^verbatim>\<open>a.access_token && a.access_token.token === this.heroku.auth\<close>:
  the getter runs for every record that has an access token.
\<close>

fun filter_current :: "vars \<Rightarrow> OAuthAuthorization list \<Rightarrow> client \<Rightarrow> deps \<Rightarrow> OAuthAuthorization list \<times> client \<times> deps" where
  "filter_current v [] c d = ([], c, d)"
| "filter_current v (a # as) c d =
     (case access_token a of
        None \<Rightarrow> filter_current v as c d
      | Some t \<Rightarrow>
          (case auth v c d of
             (cur, c1, d1) \<Rightarrow>
               (case filter_current v as c1 d1 of
                  (rest, c2, d2) \<Rightarrow> (if token t = cur then a # rest else rest, c2, d2))))"

text \<open>
  A client holds the credential \<open>a\<close> as resolved when its field is \<open>a\<close> and, if \<open>a\<close> is not a
  credential, the environment and the store still give \<open>a\<close>.
\<close>

definition resolved :: "vars \<Rightarrow> string option \<Rightarrow> client \<Rightarrow> deps \<Rightarrow> bool" where
  "resolved v a c d =
     (priv_auth c = a \<and>
      (truthy a \<or>
       (\<not> truthy (env d ''HEROKU_API_KEY'')
        \<and> (case netrc_file d (apiHost v) of None \<Rightarrow> None | Some m \<Rightarrow> m ''password'') = a)))"

text \<open>
  The second request of \<^verbatim>\<open>logout\<close> with its continuation (lines 285 to 304), after the
  GET has been issued: what the chain settles with, and the states in which it waits for
  an answer, in order. It waits for the records; then, inside \<^verbatim>\<open>defaultToken\<close>, for the
  default authorization; then for the deletions, which are all issued before any of them
  is awaited. The last of these states is the state in which the chain settles.
\<close>

definition authorizations_chain :: "vars \<Rightarrow> login_world \<Rightarrow> string \<Rightarrow> client \<Rightarrow> deps \<Rightarrow> (error + unit) \<times> (client \<times> deps) list" where
  "authorizations_chain v W tok c d =
     (case http_get_authorizations W tok of
        Inl err \<Rightarrow> (catch_authorizations err, [(c, d)])
      | Inr authorizations \<Rightarrow>
          (case defaultToken v W c d of
             (Inl err, c1, d1) \<Rightarrow> (catch_authorizations err, [(c, d), (c1, d1)])
           | (Inr dt, c1, d1) \<Rightarrow>
               if dt = Some tok then (Inr (), [(c, d), (c1, d1)])
               else
                 (case filter_current v authorizations c1 d1 of
                    (matching, c2, d2) \<Rightarrow>
                      (case Promise_all W
                              (map (\<lambda>a. case http_delete_authorization W (authorization_id a) tok of
                                           None \<Rightarrow> Inr ()
                                         | Some e \<Rightarrow> Inl e) matching) of
                         Inr u \<Rightarrow> Inr ()
                       | Inl err \<Rightarrow> catch_authorizations err,
                       [(c, d), (c1, d1),
                        (c2, d2\<lparr>calls := calls d2
                                  @ map (\<lambda>a. DeleteAuthorization (authorization_id a) tok) matching\<rparr>)]))))"

text \<open>
  \<^verbatim>\<open>Login.logout\<close> (lines 265 to 307). The argument is \<open>None\<close> when the caller passes none,
  and the default \<^verbatim>\<open>this.heroku.auth\<close> is taken. Both requests are issued before either is
  awaited. \<^verbatim>\<open>await Promise.all(requests)\<close> returns when both have fulfilled and throws as
  soon as one of them rejects: when the session deletion rejects while the chain still
  waits for an answer, \<^verbatim>\<open>logout\<close> throws in the state the chain has reached by then. (The
  chain runs on after that; what it then does is no longer part of the call and is not
  in the state returned.)
\<close>

definition logout :: "vars \<Rightarrow> login_world \<Rightarrow> string option \<Rightarrow> client \<Rightarrow> deps \<Rightarrow> (error + unit) \<times> client \<times> deps" where
  "logout v W arg c d =
     (case (case arg of None \<Rightarrow> auth v c d | Some t \<Rightarrow> (Some t, c, d)) of
        (tok_opt, c0, d0) \<Rightarrow>
          (case tok_opt of
             None \<Rightarrow> (Inr (), c0, d0)
           | Some tok \<Rightarrow>
               if tok = [] then (Inr (), c0, d0)
               else
                 (case authorizations_chain v W tok c0
                         (d0\<lparr>calls := calls d0 @ [DeleteSession tok, GetAuthorizations tok]\<rparr>) of
                    (r2, stages) \<Rightarrow>
                      (case (case http_delete_session W tok of
                               None \<Rightarrow> Inr ()
                             | Some err \<Rightarrow> catch_session err) of
                         Inr u \<Rightarrow> (r2, last stages)
                       | Inl e1 \<Rightarrow>
                           if session_answer W < length stages
                           then (Inl e1, stages ! session_answer W)
                           else (case r2 of
                                   Inl e2 \<Rightarrow> (Inl e2, last stages)
                                 | Inr u \<Rightarrow> (Inl e1, last stages))))))"

subsection \<open>Login\<close>

text \<open>\<^verbatim>\<open>ux.prompt\<close>: the next answer, or the error the prompt rejects with.\<close>

definition prompt :: "login_world \<Rightarrow> deps \<Rightarrow> (error + string) \<times> deps" where
  "prompt W d = (ux_prompt W (prompted d), d\<lparr>prompted := Suc (prompted d)\<rparr>)"

text \<open>
  \<^verbatim>\<open>Login.createOAuthToken\<close> (lines 355 to 378). The entry is built from
  \<^verbatim>\<open>auth.access_token!.token!\<close> and \<^verbatim>\<open>auth.user!.email!\<close>: reading a property of a missing
  \<^verbatim>\<open>access_token\<close> or \<^verbatim>\<open>user\<close> is a \<open>TypeError\<close>.
\<close>

definition createOAuthToken :: "login_world \<Rightarrow> string \<Rightarrow> string \<Rightarrow> int option \<Rightarrow> string option \<Rightarrow> deps \<Rightarrow> (error + NetrcEntry) \<times> deps" where
  "createOAuthToken W username pw expires secondFactor d =
     (let factor = (if truthy secondFactor then secondFactor else None);
          expires_in = (case expires of
                          None \<Rightarrow> 60 * 60 * 24 * 365
                        | Some n \<Rightarrow> if n = 0 then 60 * 60 * 24 * 365 else n);
          d1 = d\<lparr>calls := calls d @ [PostAuthorizations username pw expires_in factor]\<rparr>
      in case http_post_authorizations W username pw expires_in factor of
           Inl err \<Rightarrow> (Inl err, d1)
         | Inr a \<Rightarrow>
             (case access_token a of
                None \<Rightarrow> (Inl (TypeError ''Cannot read property token of undefined''), d1)
              | Some t \<Rightarrow>
                  (case user a of
                     None \<Rightarrow> (Inl (TypeError ''Cannot read property email of undefined''), d1)
                   | Some u \<Rightarrow> (Inr \<lparr>entry_login = email u, entry_password = token t\<rparr>, d1))))"

text \<open>
  \<^verbatim>\<open>Login.interactive\<close> (lines 338 to 353). The previous login is only the default the
  e-mail prompt offers and is left out.
\<close>

definition interactive :: "login_world \<Rightarrow> int option \<Rightarrow> client \<Rightarrow> deps \<Rightarrow> (error + NetrcEntry) \<times> client \<times> deps" where
  "interactive W expires c d =
     (case prompt W d of
        (Inl e, d1) \<Rightarrow> (Inl e, c, d1)
      | (Inr login_name, d1) \<Rightarrow>
          (case prompt W d1 of
             (Inl e, d2) \<Rightarrow> (Inl e, c, d2)
           | (Inr pw, d2) \<Rightarrow>
               (case createOAuthToken W login_name pw expires None d2 of
                  (Inr a, d3) \<Rightarrow>
                    (case set_auth (entry_password a) c of
                       Inl e \<Rightarrow> (Inl e, c, d3)
                     | Inr c' \<Rightarrow> (Inr a, c', d3))
                | (Inl err, d3) \<Rightarrow>
                    if (case err_body err of None \<Rightarrow> True | Some b \<Rightarrow> error_id b \<noteq> Some ''two_factor'')
                    then (Inl err, c, d3)
                    else
                      (case prompt W d3 of
                         (Inl e, d4) \<Rightarrow> (Inl e, c, d4)
                       | (Inr secondFactor, d4) \<Rightarrow>
                           (case createOAuthToken W login_name pw expires (Some secondFactor) d4 of
                              (Inl e, d5) \<Rightarrow> (Inl e, c, d5)
                            | (Inr a, d5) \<Rightarrow>
                                (case set_auth (entry_password a) c of
                                   Inl e \<Rightarrow> (Inl e, c, d5)
                                 | Inr c' \<Rightarrow> (Inr a, c', d5)))))))"

text \<open>
  \<^verbatim>\<open>Login.browser\<close> (lines 309 to 336). The exit of the browser process is reported to a
  listener after the fact and is not part of the model.
\<close>

definition loginHost :: "deps \<Rightarrow> string" where
  "loginHost d =
     (case env d ''HEROKU_LOGIN_HOST'' of
        None \<Rightarrow> ''https://cli-login.heroku.com''
      | Some h \<Rightarrow> if h = [] then ''https://cli-login.heroku.com'' else h)"

definition browser :: "login_world \<Rightarrow> client \<Rightarrow> deps \<Rightarrow> (error + NetrcEntry) \<times> client \<times> deps" where
  "browser W c d =
     (let d1 = d\<lparr>calls := calls d @ [PostAuth (loginHost d @ ''/auth'')]\<rparr> in
      case http_post_auth W (loginHost d @ ''/auth'') of
        Inl e \<Rightarrow> (Inl e, c, d1)
      | Inr urls \<Rightarrow>
          (let d2 = d1\<lparr>opened := opened d1 @ [loginHost d @ browser_url urls]\<rparr> in
           case opn W (loginHost d @ browser_url urls) of
             Some e \<Rightarrow> (Inl e, c, d2)
           | None \<Rightarrow>
               (let d3 = (if env d ''HEROKU_TESTING_HEADLESS_LOGIN'' = Some ''1''
                          then d2\<lparr>warnings := warnings d2 @ [Warning ''Cannot open browser.'']\<rparr>
                          else d2);
                    d4 = d3\<lparr>calls := calls d3 @ [GetCli (loginHost d @ cli_url urls) (url_token urls)]\<rparr>
                in case http_get_cli W (loginHost d @ cli_url urls) (url_token urls) of
                     Inl e \<Rightarrow> (Inl e, c, d4)
                   | Inr a \<Rightarrow>
                       if truthy (cli_error a) then (Inl (Error (the (cli_error a))), c, d4)
                       else
                         (case set_auth (cli_access_token a) c of
                            Inl e \<Rightarrow> (Inl e, c, d4)
                          | Inr c' \<Rightarrow>
                              (case http_get_account W (cli_access_token a) of
                                 Inl e \<Rightarrow> (Inl e, c',
                                           d4\<lparr>calls := calls d4 @ [GetAccount (cli_access_token a)]\<rparr>)
                               | Inr account \<Rightarrow>
                                   (Inr \<lparr>entry_login = email account,
                                         entry_password = cli_access_token a\<rparr>,
                                    c',
                                    d4\<lparr>calls := calls d4 @ [GetAccount (cli_access_token a)]\<rparr>))))))"

text \<open>
  \<^verbatim>\<open>Login.sso\<close> (lines 417 to 442). Assigning an \<^verbatim>\<open>undefined\<close> organization to
  \<^verbatim>\<open>settings.org\<close> leaves the settings without a value for it.
\<close>

definition sso :: "login_world \<Rightarrow> client \<Rightarrow> deps \<Rightarrow> (error + NetrcEntry) \<times> client \<times> deps" where
  "sso W c d =
     (let org0 = (if truthy (env d ''HEROKU_ORGANIZATION'') then env d ''HEROKU_ORGANIZATION''
                  else settings d ''org'')
      in case (if truthy (env d ''SSO_URL'')
               then (Inr (the (env d ''SSO_URL''), org0), d)
               else (case prompt W d of
                       (Inl e, d1) \<Rightarrow> (Inl e, d1)
                     | (Inr org, d1) \<Rightarrow>
                         (Inr (''https://sso.heroku.com/saml/'' @ encodeURIComponent W org
                                 @ ''/init?cli=true'', Some org), d1))) of
           (Inl e, d1) \<Rightarrow> (Inl e, c, d1)
         | (Inr (sso_url, org), d1) \<Rightarrow>
             (let d2 = d1\<lparr>opened := opened d1 @ [sso_url]\<rparr> in
              case opn W sso_url of
                Some e \<Rightarrow> (Inl e, c, d2)
              | None \<Rightarrow>
                  (case prompt W d2 of
                     (Inl e, d3) \<Rightarrow> (Inl e, c, d3)
                   | (Inr pw, d3) \<Rightarrow>
                       (case set_auth (Some pw) c of
                          Inl e \<Rightarrow> (Inl e, c, d3)
                        | Inr c' \<Rightarrow>
                            (let d4 = d3\<lparr>calls := calls d3 @ [GetAccount (Some pw)]\<rparr> in
                             case http_get_account W (Some pw) of
                               Inl e \<Rightarrow> (Inl e, c', d4)
                             | Inr account \<Rightarrow>
                                 (Inr \<lparr>entry_login = email account, entry_password = Some pw\<rparr>,
                                  c',
                                  d4\<lparr>settings := (settings d4)(''method'' \<mapsto> ''sso'', ''org'' := org)\<rparr>))))))"

text \<open>
  \<^verbatim>\<open>Login.saveToken\<close> (lines 380 to 397): for both hosts, create the machine if it is
  missing, set \<^verbatim>\<open>login\<close> and \<^verbatim>\<open>password\<close>, delete \<^verbatim>\<open>method\<close> and \<^verbatim>\<open>org\<close>; then save. (The
  formatting of the machine's tokens kept by netrc-parser is not modelled.)
\<close>

definition save_machine :: "NetrcEntry \<Rightarrow> machine \<Rightarrow> machine" where
  "save_machine entry m =
     m(''login'' := entry_login entry, ''password'' := entry_password entry,
       ''method'' := None, ''org'' := None)"

definition saveToken :: "vars \<Rightarrow> NetrcEntry \<Rightarrow> deps \<Rightarrow> deps" where
  "saveToken v entry d =
     (let ms = fold (\<lambda>host ms.
                       ms(host \<mapsto> save_machine entry
                                     (case ms host of None \<Rightarrow> Map.empty | Some m \<Rightarrow> m)))
                    [apiHost v, httpGitHost v] (machines d)
      in d\<lparr>machines := ms, netrc_file := ms\<rparr>)"

text \<open>\<^verbatim>\<open>Login.loadSettings\<close> (lines 444 to 452) and \<^verbatim>\<open>Login.saveSettings\<close> (lines 454 to 464).\<close>

definition loadSettings :: "deps \<Rightarrow> deps" where
  "loadSettings d =
     (case settings_file d of
        Inr s \<Rightarrow> d\<lparr>settings := s\<rparr>
      | Inl err \<Rightarrow>
          (if err \<noteq> SystemError ''ENOENT''
           then d\<lparr>warnings := warnings d @ [WarnError err], settings := Map.empty\<rparr>
           else d\<lparr>settings := Map.empty\<rparr>))"

definition saveSettings :: "login_world \<Rightarrow> deps \<Rightarrow> deps" where
  "saveSettings W d =
     (case fs_write W of
        Some err \<Rightarrow> d\<lparr>warnings := warnings d @ [WarnError err]\<rparr>
      | None \<Rightarrow>
          if settings d = Map.empty then d\<lparr>settings_file := Inl (SystemError ''ENOENT'')\<rparr>
          else d\<lparr>settings_file := Inr (settings d)\<rparr>)"

text \<open>\<^verbatim>\<open>Login.enableBrowserLogin\<close> (lines 411 to 415).\<close>

definition enableBrowserLogin :: "IConfig \<Rightarrow> deps \<Rightarrow> bool" where
  "enableBrowserLogin config d =
     (if \<not> truthy (env d ''HEROKU_LOGIN_HOST'') then False
      else if config_name config = ''@heroku-cli/command'' then True
      else channel config \<noteq> ''stable'')"

text \<open>
  The first part of the \<^verbatim>\<open>try\<close> block of \<^verbatim>\<open>Login.login\<close> (lines 218 to 239), after the settings
  are loaded: the check of \<^verbatim>\<open>HEROKU_API_KEY\<close>, the load of the store, the choice of the
  method, the logout of the previous entry (whose failure is only warned about) and the
  removal of \<^verbatim>\<open>settings.method\<close>. \<open>Inl\<close> is an error thrown inside the \<^verbatim>\<open>try\<close>; \<open>Inr\<close> is
  the chosen input. The timer of lines 214 to 216 is not modelled.
\<close>

definition login_prepare :: "vars \<Rightarrow> IConfig \<Rightarrow> login_world \<Rightarrow> Login_Options \<Rightarrow> client \<Rightarrow> deps \<Rightarrow> (error + string) \<times> client \<times> deps" where
  "login_prepare v config W opts c d =
     (if truthy (env d ''HEROKU_API_KEY'')
      then (Inl (Error ''Cannot log in with HEROKU_API_KEY set''), c, d)
      else
        (let d1 = d\<lparr>machines := netrc_file d\<rparr>;
             defaultMethod = (if truthy (settings d1 ''method'') then the (settings d1 ''method'')
                              else ''interactive'')
         in case (if truthy (opt_method opts) then (Inr (the (opt_method opts)), d1)
                  else if (case expiresIn opts of None \<Rightarrow> False | Some n \<Rightarrow> n \<noteq> 0)
                  then (Inr ''interactive'', d1)
                  else if enableBrowserLogin config d1 then prompt W d1
                  else (Inr defaultMethod, d1)) of
              (Inl e, d2) \<Rightarrow> (Inl e, c, d2)
            | (Inr input, d2) \<Rightarrow>
                (case (case machines d2 ''api.heroku.com'' of
                         None \<Rightarrow> (c, d2)
                       | Some previousEntry \<Rightarrow>
                           if truthy (previousEntry ''password'')
                           then (case logout v W (previousEntry ''password'') c d2 of
                                   (Inl err, c3, d3) \<Rightarrow> (c3, d3\<lparr>warnings := warnings d3 @ [WarnError err]\<rparr>)
                                 | (Inr u, c3, d3) \<Rightarrow> (c3, d3))
                           else (c, d2)) of
                   (c3, d3) \<Rightarrow>
                     (Inr input, c3, d3\<lparr>settings := (settings d3)(''method'' := None)\<rparr>))))"

text \<open>The \<^verbatim>\<open>switch\<close> of lines 240 to 255; \<open>None\<close> is its default branch.\<close>

definition run_strategy :: "login_world \<Rightarrow> Login_Options \<Rightarrow> string \<Rightarrow> client \<Rightarrow> deps \<Rightarrow> ((error + NetrcEntry) \<times> client \<times> deps) option" where
  "run_strategy W opts input c d =
     (if input = ''b'' \<or> input = ''browser'' then Some (browser W c d)
      else if input = ''i'' \<or> input = ''interactive'' then Some (interactive W (expiresIn opts) c d)
      else if input = ''s'' \<or> input = ''sso'' then Some (sso W c d)
      else None)"

text \<open>
  \<^verbatim>\<open>Login.login\<close> (lines 209 to 263). An input that names no method makes it call itself
  again; the first argument bounds the number of such rounds, and \<open>None\<close> is a login that has
  not ended within them. The \<^verbatim>\<open>catch\<close> of line 258 passes whatever was thrown in the \<^verbatim>\<open>try\<close>
  to the constructor of \<^verbatim>\<open>HerokuAPIError\<close>; the result of the nested call is returned as
  it is.
\<close>

fun login :: "nat \<Rightarrow> vars \<Rightarrow> IConfig \<Rightarrow> login_world \<Rightarrow> Login_Options \<Rightarrow> client \<Rightarrow> deps \<Rightarrow> ((error + unit) \<times> client \<times> deps) option" where
  "login 0 v config W opts c d = None"
| "login (Suc n) v config W opts c d =
     (case login_prepare v config W opts c (loadSettings d) of
        (Inl err, c1, d1) \<Rightarrow> Some (Inl (throw_new_HerokuAPIError err), c1, d1)
      | (Inr input, c1, d1) \<Rightarrow>
          (case run_strategy W opts input c1 d1 of
             None \<Rightarrow> login n v config W opts c1 d1
           | Some (Inl err, c2, d2) \<Rightarrow> Some (Inl (throw_new_HerokuAPIError err), c2, d2)
           | Some (Inr entry, c2, d2) \<Rightarrow>
               Some (Inr (), c2, saveSettings W (saveToken v entry d2))))"

subsection \<open>Example logins and logouts\<close>

text \<open>
  A server on which everything succeeds: the account has the records \<^verbatim>\<open>auth-1\<close> (token
  \<^verbatim>\<open>mypass\<close>), \<^verbatim>\<open>auth-2\<close> (token \<^verbatim>\<open>other\<close>) and \<^verbatim>\<open>auth-3\<close> (no access token), its default
  token is \<^verbatim>\<open>dashboard\<close>, and a new authorization has the token \<^verbatim>\<open>newtoken\<close>. The user
  answers the prompts with an e-mail address and a password.
\<close>

definition account_records :: "OAuthAuthorization list" where
  "account_records =
     [\<lparr>access_token = Some \<lparr>token = Some ''mypass''\<rparr>, authorization_id = Some ''auth-1'', user = None\<rparr>,
      \<lparr>access_token = Some \<lparr>token = Some ''other''\<rparr>, authorization_id = Some ''auth-2'', user = None\<rparr>,
      \<lparr>access_token = None, authorization_id = Some ''auth-3'', user = None\<rparr>]"

definition good_server :: login_world where
  "good_server =
     \<lparr>http_delete_session = (\<lambda>t. None),
      http_get_authorizations = (\<lambda>t. Inr account_records),
      http_get_default_authorization =
        (\<lambda>t. Inr \<lparr>access_token = Some \<lparr>token = Some ''dashboard''\<rparr>,
                     authorization_id = Some ''auth-0'', user = None\<rparr>),
      http_delete_authorization = (\<lambda>i t. None),
      http_post_authorizations =
        (\<lambda>u p e f. Inr \<lparr>access_token = Some \<lparr>token = Some ''newtoken''\<rparr>,
                           authorization_id = Some ''auth-9'', user = Some \<lparr>email = Some u\<rparr>\<rparr>),
      http_post_auth =
        (\<lambda>u. Inr \<lparr>browser_url = ''/auth/browser/1'', cli_url = ''/auth/cli/1'', url_token = ''t1''\<rparr>),
      http_get_cli = (\<lambda>u t. Inr \<lparr>cli_error = None, cli_access_token = Some ''newtoken''\<rparr>),
      http_get_account = (\<lambda>t. Inr \<lparr>email = Some ''me@example.com''\<rparr>),
      ux_prompt = (\<lambda>n. if n = 0 then Inr ''me@example.com'' else Inr ''secret''),
      opn = (\<lambda>u. None),
      fs_write = None,
      race = 0,
      session_answer = 0,
      encodeURIComponent = (\<lambda>s. s)\<rparr>"

definition session_gone_body :: IHerokuAPIErrorOptions where
  "session_gone_body =
     \<lparr>resource = Some ''session'', app = None, error_id = Some ''not_found'',
      message = Some ''Could not find that session.'', url = None\<rparr>"

definition unauthorized_body :: IHerokuAPIErrorOptions where
  "unauthorized_body =
     \<lparr>resource = None, app = None, error_id = Some ''unauthorized'', message = None, url = None\<rparr>"

text \<open>A server on which the token is no longer valid and the session is gone.\<close>

definition revoked_server :: login_world where
  "revoked_server =
     good_server\<lparr>http_delete_session := (\<lambda>t. Some (HTTPError 404 session_gone_body)),
                  http_get_authorizations := (\<lambda>t. Inl (HTTPError 401 unauthorized_body))\<rparr>"

text \<open>A server on which the default token of the account is \<^verbatim>\<open>mypass\<close>.\<close>

definition dashboard_server :: login_world where
  "dashboard_server =
     good_server\<lparr>http_get_default_authorization :=
       (\<lambda>t. Inr \<lparr>access_token = Some \<lparr>token = Some ''mypass''\<rparr>,
                    authorization_id = Some ''auth-1'', user = None\<rparr>)\<rparr>"

text \<open>A client whose credential is \<^verbatim>\<open>mypass\<close>.\<close>

definition mypass_client :: client where
  "mypass_client = fresh_client\<lparr>priv_auth := Some ''mypass''\<rparr>"

text \<open>
  A server that fails the session deletion with a 500; the answer arrives before any
  other.
\<close>

definition server_error_body :: IHerokuAPIErrorOptions where
  "server_error_body =
     \<lparr>resource = None, app = None, error_id = Some ''internal_server_error'',
      message = Some ''An internal server error occurred.'', url = None\<rparr>"

definition broken_server :: login_world where
  "broken_server =
     good_server\<lparr>http_delete_session := (\<lambda>t. Some (HTTPError 500 server_error_body))\<rparr>"

text \<open>
  A server that answers the lookup of the default authorization with a 500, and one that
  answers it with 404 and \<^verbatim>\<open>{id: 'not_found', resource: 'authorization'}\<close>.
\<close>

definition lookup_fails_server :: login_world where
  "lookup_fails_server =
     good_server\<lparr>http_get_default_authorization := (\<lambda>t. Inl (HTTPError 500 server_error_body))\<rparr>"

definition authorization_gone_body :: IHerokuAPIErrorOptions where
  "authorization_gone_body =
     \<lparr>resource = Some ''authorization'', app = None, error_id = Some ''not_found'',
      message = Some ''Could not find that authorization.'', url = None\<rparr>"

definition no_default_server :: login_world where
  "no_default_server =
     good_server\<lparr>http_get_default_authorization := (\<lambda>t. Inl (HTTPError 404 authorization_gone_body))\<rparr>"

text \<open>A server that fails every deletion of an authorization record with a 500.\<close>

definition delete_fails_server :: login_world where
  "delete_fails_server =
     good_server\<lparr>http_delete_authorization := (\<lambda>i t. Some (HTTPError 500 server_error_body))\<rparr>"

text \<open>A server that rejects the password with a 401 whose body has no message.\<close>

definition rejecting_server :: login_world where
  "rejecting_server =
     good_server\<lparr>http_post_authorizations := (\<lambda>u p e f. Inl (HTTPError 401 unauthorized_body))\<rparr>"

text \<open>A server that rejects the password with a 401 and a message.\<close>

definition explaining_server :: login_world where
  "explaining_server =
     good_server\<lparr>http_post_authorizations :=
       (\<lambda>u p e f. Inl (HTTPError 401 (unauthorized_body\<lparr>message := Some ''Invalid credentials provided.''\<rparr>)))\<rparr>"

text \<open>The user closes the terminal at the first prompt.\<close>

definition no_terminal :: login_world where
  "no_terminal = good_server\<lparr>ux_prompt := (\<lambda>n. Inl (Error ''Prompt timeout''))\<rparr>"

definition interactive_opts :: Login_Options where
  "interactive_opts = \<lparr>expiresIn = None, opt_method = Some ''interactive''\<rparr>"

text \<open>A store with an entry from an earlier SSO login.\<close>

definition old_netrc :: "string \<rightharpoonup> machine" where
  "old_netrc =
     [''api.heroku.com'' \<mapsto>
        [''login'' \<mapsto> ''old@example.com'', ''password'' \<mapsto> ''mypass'',
         ''method'' \<mapsto> ''sso'', ''org'' \<mapsto> ''acme'']]"


section \<open>Properties\<close>

subsection \<open>The message of the wrapped error\<close>

lemma sublist_join: "x \<in> set xs \<Longrightarrow> sublist x (join sep xs)"
proof (induction sep xs rule: join.induct)
  case (1 sep)
  then show ?case by simp
next
  case (2 sep y)
  then show ?case by simp
next
  case (3 sep y z zs)
  show ?case
  proof (cases "x = y")
    case True
    then show ?thesis by simp
  next
    case False
    with 3 have "sublist x (join sep (z # zs))" by simp
    then have "sublist x ((y @ sep) @ join sep (z # zs))"
      unfolding sublist_append by blast
    then show ?thesis by simp
  qed
qed

lemma message_prefix: "prefix m (HerokuAPIError_message m b)"
  by (cases "HerokuAPIError_info b") (simp_all add: HerokuAPIError_message_def Let_def)

lemma message_info:
  assumes "l \<in> set (HerokuAPIError_info b)"
  shows "sublist l (HerokuAPIError_message m b)"
proof -
  from assms have "HerokuAPIError_info b \<noteq> []" by auto
  moreover from assms have "sublist l (join [CHR 0x0A] ([m, []] @ HerokuAPIError_info b))"
    by (intro sublist_join) simp
  ultimately show ?thesis by (simp add: HerokuAPIError_message_def Let_def)
qed

subsection \<open>Errors that are not recovered\<close>

text \<open>
  Claim C3. When the transport fails with a structured error and the step-up retry does
  not apply (the decremented counter is not positive, or the error is not a 403 with id
  \<^verbatim>\<open>two_factor\<close>), the engine makes no further attempt. If the body has a non-empty message
  it throws one wrapped error whose message starts with the server's message and contains
  the error id, the app name and the help URL, each when non-empty; if the body has no
  message, it throws the transport error itself, unchanged.
\<close>

theorem request_unrecovered_error:
  assumes "super_request W (length (attempts c)) u opts = Inl (HTTPError status b)"
    and "\<not> (0 < retries - 1 \<and> status = 403 \<and> error_id b = Some ''two_factor'')"
  shows "(\<forall>m. message b = Some m \<and> m \<noteq> [] \<longrightarrow>
            request W u opts retries c =
              (Inl (HerokuAPIError (HerokuAPIError_message m b) (HTTPError status b)),
               c\<lparr>attempts := attempts c @ [retries - 1]\<rparr>)
          \<and> prefix m (HerokuAPIError_message m b)
          \<and> (\<forall>i. error_id b = Some i \<and> i \<noteq> [] \<longrightarrow>
                 sublist (''Error ID: '' @ i) (HerokuAPIError_message m b))
          \<and> (\<forall>n. err_app b = Some n \<and> n \<noteq> [] \<longrightarrow>
                 sublist (''App: '' @ n) (HerokuAPIError_message m b))
          \<and> (\<forall>v. url b = Some v \<and> v \<noteq> [] \<longrightarrow>
                 sublist (''See '' @ v @ '' for more information.'') (HerokuAPIError_message m b)))
       \<and> (\<not> truthy (message b) \<longrightarrow>
            request W u opts retries c =
              (Inl (HTTPError status b), c\<lparr>attempts := attempts c @ [retries - 1]\<rparr>))"
proof -
  have run: "request W u opts retries c =
      (Inl (throw_new_HerokuAPIError (HTTPError status b)),
       c\<lparr>attempts := attempts c @ [retries - 1]\<rparr>)"
    using assms by auto
  have wrapped: "throw_new_HerokuAPIError (HTTPError status b) =
      HerokuAPIError (HerokuAPIError_message m b) (HTTPError status b)"
    if "message b = Some m" "m \<noteq> []" for m
    using that by (simp add: throw_new_HerokuAPIError_def new_HerokuAPIError_def)
  have raw: "throw_new_HerokuAPIError (HTTPError status b) = HTTPError status b"
    if "\<not> truthy (message b)"
    using that
    by (simp add: throw_new_HerokuAPIError_def new_HerokuAPIError_def truthy_def
        split: option.splits)
  have id_line: "sublist (''Error ID: '' @ i) (HerokuAPIError_message m b)"
    if "error_id b = Some i" "i \<noteq> []" for i m
    using that by (intro message_info) (simp add: HerokuAPIError_info_def)
  have app_line: "sublist (''App: '' @ n) (HerokuAPIError_message m b)"
    if "err_app b = Some n" "n \<noteq> []" for n m
    using that
    by (intro message_info) (auto simp: HerokuAPIError_info_def err_app_def split: option.splits)
  have url_line: "sublist (''See '' @ v @ '' for more information.'') (HerokuAPIError_message m b)"
    if "url b = Some v" "v \<noteq> []" for v m
    using that by (intro message_info) (simp add: HerokuAPIError_info_def)
  show ?thesis
    using run wrapped raw message_prefix id_line app_line url_line by simp
qed

theorem request_unrecovered_error_witness:
  "request not_found_server ''/apps/myapp'' no_opts 3 fresh_client =
     (Inl (HerokuAPIError
            (''Could not find that app.'' @ [CHR 0x0A, CHR 0x0A] @ ''Error ID: not_found''
               @ [CHR 0x0A] @ ''App: myapp'' @ [CHR 0x0A]
               @ ''See https://devcenter.heroku.com for more information.'')
            (HTTPError 404 not_found_body)),
      fresh_client\<lparr>attempts := [2]\<rparr>)
   \<and> sublist ''App: myapp'' (HerokuAPIError_message ''Could not find that app.'' not_found_body)
   \<and> request step_up_forever ''/apps/myapp'' no_opts 1 fresh_client =
     (Inl (HTTPError 403 two_factor_body), fresh_client\<lparr>attempts := [0]\<rparr>)"
proof -
  have a: "super_request not_found_server (length (attempts fresh_client)) ''/apps/myapp'' no_opts
             = Inl (HTTPError 404 not_found_body)"
    by (simp add: not_found_server_def)
  have b: "\<not> (0 < (3::int) - 1 \<and> (404::int) = 403 \<and> error_id not_found_body = Some ''two_factor'')"
    by simp
  have c: "super_request step_up_forever (length (attempts fresh_client)) ''/apps/myapp'' no_opts
             = Inl (HTTPError 403 two_factor_body)"
    by (simp add: step_up_forever_def)
  have d: "\<not> (0 < (1::int) - 1 \<and> (403::int) = 403 \<and> error_id two_factor_body = Some ''two_factor'')"
    by simp
  have m: "message not_found_body = Some ''Could not find that app.''"
    and n: "err_app not_found_body = Some ''myapp''"
    and t: "\<not> truthy (message two_factor_body)"
    by (simp_all add: not_found_body_def two_factor_body_def err_app_def truthy_def)
  have msg: "HerokuAPIError_message ''Could not find that app.'' not_found_body =
      ''Could not find that app.'' @ [CHR 0x0A, CHR 0x0A] @ ''Error ID: not_found''
               @ [CHR 0x0A] @ ''App: myapp'' @ [CHR 0x0A]
               @ ''See https://devcenter.heroku.com for more information.''"
    by (simp add: HerokuAPIError_message_def HerokuAPIError_info_def not_found_body_def)
  from request_unrecovered_error [OF a b] m n msg
    request_unrecovered_error [OF c d] t
  show ?thesis by (simp add: fresh_client_def)
qed

subsection \<open>The retry budget\<close>

lemma attempts_sync: "attempts (snd (twoFactorRetry_sync a c)) = attempts c"
  by (simp add: twoFactorRetry_sync_def split: option.splits slot.splits)

lemma attempts_settle: "attempts (settle h out c) = attempts c"
  by (simp add: settle_def)

lemma attempts_await: "attempts (snd (await_slot W s c)) = attempts c"
  by (simp add: await_slot_def attempts_settle split: slot.splits option.splits)

lemma countdown_Suc:
  "0 < r - 1 \<Longrightarrow>
     [r - 1] @ map (\<lambda>k. r - 1 - 1 - int k) [0..<n] = map (\<lambda>k. r - 1 - int k) [0..<Suc n]"
  by (simp add: upt_conv_Cons map_Suc_upt[symmetric] del: upt_Suc)

text \<open>
  Every call of the transport made for one request is recorded with the counter it ran
  under. The counters go down by one from \<open>retries - 1\<close>, and there are at most
  \<open>max 1 retries\<close> of them; the step-up path may end before any further call.
\<close>

lemma attempts_request:
  "\<exists>n. 1 \<le> n \<and> n \<le> max 1 (nat retries) \<and>
       attempts (snd (request W u opts retries c))
         = attempts c @ map (\<lambda>k. retries - 1 - int k) [0..<n]"
  and attempts_twoFactorRetry:
  "\<exists>n. n \<le> max 1 (nat retries) \<and>
       attempts (snd (twoFactorRetry W err u opts retries c))
         = attempts c @ map (\<lambda>k. retries - 1 - int k) [0..<n]"
proof (induction W u opts retries c and W err u opts retries c rule: request_twoFactorRetry.induct)
  case (1 W u opts retries c)
  let ?c1 = "c\<lparr>attempts := attempts c @ [retries - 1]\<rparr>"
  show ?case
  proof (cases "\<exists>status b. super_request W (length (attempts c)) u opts = Inl (HTTPError status b)
                  \<and> 0 < retries - 1 \<and> status = 403 \<and> error_id b = Some ''two_factor''")
    case True
    then obtain b where ans: "super_request W (length (attempts c)) u opts = Inl (HTTPError 403 b)"
      and pos: "0 < retries - 1" and tf: "error_id b = Some ''two_factor''" by blast
    from "1.IH"[OF ans refl pos] tf
    obtain n where n: "n \<le> max 1 (nat (retries - 1))"
      and eq: "attempts (snd (twoFactorRetry W (HTTPError 403 b) u opts (retries - 1) ?c1))
                = attempts ?c1 @ map (\<lambda>k. retries - 1 - 1 - int k) [0..<n]" by auto
    have "request W u opts retries c = twoFactorRetry W (HTTPError 403 b) u opts (retries - 1) ?c1"
      using ans pos tf by simp
    then have "attempts (snd (request W u opts retries c))
                 = attempts c @ map (\<lambda>k. retries - 1 - int k) [0..<Suc n]"
      using eq countdown_Suc[OF pos, of n] by simp
    moreover have "Suc n \<le> max 1 (nat retries)" using n pos by auto
    ultimately show ?thesis by (intro exI[of _ "Suc n"]) simp
  next
    case False
    then have "attempts (snd (request W u opts retries c)) = attempts c @ [retries - 1]"
      by (auto split: sum.splits error.splits)
    then show ?thesis by (intro exI[of _ 1]) simp
  qed
next
  case (2 W err u opts retries c)
  let ?a = "case err_body err of None \<Rightarrow> None | Some x \<Rightarrow> err_app x"
  obtain act c1 where sync: "twoFactorRetry_sync ?a c = (act, c1)"
    by (cases "twoFactorRetry_sync ?a c")
  have c1: "attempts c1 = attempts c" using attempts_sync[of ?a c] sync by simp
  show ?case
  proof (cases act)
    case (PromptDirect k)
    show ?thesis
    proof (cases "twoFactorPrompt W k")
      case (Inl e)
      then have "twoFactorRetry W err u opts retries c = (Inl e, c1)"
        using sync PromptDirect by simp
      then show ?thesis using c1 by (intro exI[of _ 0]) simp
    next
      case (Inr code)
      then have eq: "twoFactorRetry W err u opts retries c
                       = request W u (set_two_factor_code code opts) retries c1"
        using sync PromptDirect by simp
      from "2.IH"(1)[OF sync[symmetric] PromptDirect Inr] c1 show ?thesis
        unfolding eq by auto
    qed
  next
    case (Await s)
    obtain out c2 where aw: "await_slot W s c1 = (out, c2)" by (cases "await_slot W s c1")
    have c2: "attempts c2 = attempts c" using attempts_await[of W s c1] aw c1 by simp
    show ?thesis
    proof (cases out)
      case Fulfilled
      then have r: "twoFactorRetry_resume out = Retry" by (simp add: twoFactorRetry_resume_def)
      have eq: "twoFactorRetry W err u opts retries c = request W u opts retries c2"
        using sync Await aw r by simp
      from "2.IH"(2)[OF sync[symmetric] Await aw[symmetric] r] c2 show ?thesis
        unfolding eq by auto
    next
      case (Rejected e)
      then have "twoFactorRetry W err u opts retries c = (Inl e, c2)"
        using sync Await aw by (simp add: twoFactorRetry_resume_def)
      then show ?thesis using c2 by (intro exI[of _ 0]) simp
    qed
  qed
qed

lemma throw_new_HTTPError:
  "throw_new_HerokuAPIError (HTTPError status b) =
     (case message b of
        Some m \<Rightarrow> if m \<noteq> [] then HerokuAPIError (HerokuAPIError_message m b) (HTTPError status b)
                  else HTTPError status b
      | None \<Rightarrow> HTTPError status b)"
  by (simp add: throw_new_HerokuAPIError_def new_HerokuAPIError_def split: option.splits)

text \<open>
  Claim C2, as amended. One call of the engine calls the transport at least once and at
  most \<open>max 1 retries\<close> times, and the counter it runs under goes down by one from call to
  call: \<open>retries - 1\<close>, \<open>retries - 2\<close>, and so on; with the default budget of 3 that is at most
  three calls, the first included. (The PUT of a preauthorization is a call of the engine
  of its own and is not counted here.) When the step-up error arrives with the counter
  exhausted, the engine makes no further call; it throws the wrapped error if the body has
  a non-empty message, and the transport error itself if it has none.
\<close>

theorem request_retry_budget:
  "(\<exists>n. 1 \<le> n \<and> n \<le> max 1 (nat retries) \<and>
        attempts (snd (request W u opts retries c))
          = attempts c @ map (\<lambda>k. retries - 1 - int k) [0..<n])
   \<and> length (attempts (snd (request W u opts 3 c))) \<le> length (attempts c) + 3
   \<and> (retries \<le> 1 \<and> super_request W (length (attempts c)) u opts = Inl (HTTPError 403 b)
          \<and> error_id b = Some ''two_factor'' \<longrightarrow>
        request W u opts retries c =
          (Inl (case message b of
                  Some m \<Rightarrow> if m \<noteq> [] then HerokuAPIError (HerokuAPIError_message m b) (HTTPError 403 b)
                            else HTTPError 403 b
                | None \<Rightarrow> HTTPError 403 b),
           c\<lparr>attempts := attempts c @ [retries - 1]\<rparr>))"
proof -
  have three: "length (attempts (snd (request W u opts 3 c))) \<le> length (attempts c) + 3"
  proof -
    obtain n where "n \<le> max 1 (nat 3)"
      and "attempts (snd (request W u opts 3 c)) = attempts c @ map (\<lambda>k. 3 - 1 - int k) [0..<n]"
      using attempts_request[of 3 W u opts c] by blast
    then show ?thesis by simp
  qed
  have exhausted: "request W u opts retries c =
      (Inl (throw_new_HerokuAPIError (HTTPError 403 b)), c\<lparr>attempts := attempts c @ [retries - 1]\<rparr>)"
    if "retries \<le> 1" "super_request W (length (attempts c)) u opts = Inl (HTTPError 403 b)"
    using that by simp
  show ?thesis
    using attempts_request[of retries W u opts c] three exhausted
    by (simp add: throw_new_HTTPError)
qed

theorem request_retry_budget_witness:
  "request step_up_with_message ''/apps/myapp'' no_opts 1 fresh_client =
     (Inl (HerokuAPIError
            (''Two-factor code required.'' @ [CHR 0x0A, CHR 0x0A] @ ''Error ID: two_factor''
               @ [CHR 0x0A] @ ''App: myapp'')
            (HTTPError 403 two_factor_message_body)),
      fresh_client\<lparr>attempts := [0]\<rparr>)
   \<and> length (attempts (snd (request step_up_with_message ''/apps/myapp'' no_opts 3 fresh_client))) \<le> 3"
proof -
  have msg: "HerokuAPIError_message ''Two-factor code required.'' two_factor_message_body =
      ''Two-factor code required.'' @ [CHR 0x0A, CHR 0x0A] @ ''Error ID: two_factor''
        @ [CHR 0x0A] @ ''App: myapp''"
    by (simp add: HerokuAPIError_message_def HerokuAPIError_info_def two_factor_message_body_def
        two_factor_body_def)
  have ans: "super_request step_up_with_message (length (attempts fresh_client)) ''/apps/myapp'' no_opts
      = Inl (HTTPError 403 two_factor_message_body)"
    by (simp add: step_up_with_message_def)
  have b: "error_id two_factor_message_body = Some ''two_factor''"
    and m: "message two_factor_message_body = Some ''Two-factor code required.''"
    by (simp_all add: two_factor_message_body_def two_factor_body_def)
  from request_retry_budget
    [of 1 step_up_with_message "''/apps/myapp''" no_opts fresh_client two_factor_message_body]
    ans b m msg
  show ?thesis by (simp add: fresh_client_def)
qed

text \<open>
  Claim C2 as stated fails where the step-up error has no message: with the budget used
  up, the engine throws the transport error itself, not a wrapped error. Here the server
  answers every call with the body of the repository's own step-up scenario.
\<close>

theorem request_exhausted_counterexample:
  "request step_up_forever ''/apps/myapp'' no_opts 3 fresh_client =
     (Inl (HTTPError 403 two_factor_body),
      fresh_client\<lparr>preauthPromises := [''myapp'' \<mapsto> 0],
        promises := [\<lparr>task_app = ''myapp'', task_prompt = 0, settled = Some Fulfilled\<rparr>],
        prompts := 1, attempts := [2, 1, 0]\<rparr>)
   \<and> new_HerokuAPIError (HTTPError 403 two_factor_body) = Inl (HTTPError 403 two_factor_body)"
  by (simp add: step_up_forever_def fresh_client_def no_opts_def two_factor_body_def
      twoFactorRetry_sync_def err_app_def get_preauthPromise_def Object_prototype_def
      await_slot_def task_outcome_def settle_def twoFactorRetry_resume_def
      throw_new_HerokuAPIError_def new_HerokuAPIError_def)

subsection \<open>The step-up table with requests in flight together\<close>

lemma sync_create:
  assumes "k \<noteq> []" "opt_preauth c" "get_preauthPromise c k = Undefined"
  shows "twoFactorRetry_sync (Some k) c =
           (Await (Promise (length (promises c))),
            c\<lparr>preauthPromises := (preauthPromises c)(k \<mapsto> length (promises c)),
              promises := promises c @ [\<lparr>task_app = k, task_prompt = prompts c, settled = None\<rparr>],
              prompts := Suc (prompts c)\<rparr>)"
  using assms by (simp add: twoFactorRetry_sync_def)

lemma sync_keep:
  assumes "\<not> (\<exists>k. a = Some k \<and> k \<noteq> [] \<and> opt_preauth c \<and> get_preauthPromise c k = Undefined)"
  shows "preauthPromises (snd (twoFactorRetry_sync a c)) = preauthPromises c"
    and "promises (snd (twoFactorRetry_sync a c)) = promises c"
  using assms by (auto simp: twoFactorRetry_sync_def split: option.splits slot.splits)

lemma table_ok_sync:
  assumes "table_ok c"
  shows "table_ok (snd (twoFactorRetry_sync a c))"
proof (cases "\<exists>k. a = Some k \<and> k \<noteq> [] \<and> opt_preauth c \<and> get_preauthPromise c k = Undefined")
  case False
  from sync_keep[OF False] assms show ?thesis by (simp add: table_ok_def)
next
  case True
  then obtain k where k: "a = Some k" "k \<noteq> []" "opt_preauth c" "get_preauthPromise c k = Undefined"
    by blast
  define t where "t = \<lparr>task_app = k, task_prompt = prompts c, settled = None\<rparr>"
  have tbl: "preauthPromises (snd (twoFactorRetry_sync a c)) = (preauthPromises c)(k \<mapsto> length (promises c))"
    and prs: "promises (snd (twoFactorRetry_sync a c)) = promises c @ [t]"
    unfolding k(1) sync_create[OF k(2,3,4)] t_def by simp_all
  have app_t: "task_app t = k" by (simp add: t_def)
  have free: "preauthPromises c k = None"
    using k(4) by (simp add: get_preauthPromise_def split: option.splits)
  have none: "task_app (promises c ! h) \<noteq> k" if "h < length (promises c)" for h
    using assms free that unfolding table_ok_def by (metis option.distinct(1))
  show ?thesis
    unfolding table_ok_def tbl prs
  proof (intro allI)
    fix b h
    show "(((preauthPromises c)(k \<mapsto> length (promises c))) b = Some h) =
          (h < length (promises c @ [t]) \<and> task_app ((promises c @ [t]) ! h) = b)"
      using assms none[of h] app_t unfolding table_ok_def
      by (cases "h < length (promises c)") (auto simp: nth_append less_Suc_eq)
  qed
qed

lemma table_ok_settle: "table_ok c \<Longrightarrow> table_ok (settle h out c)"
  unfolding table_ok_def settle_def
  by (auto simp: nth_list_update)

lemma table_ok_step: "table_ok c \<Longrightarrow> table_ok (step e c)"
  by (cases e) (simp_all add: table_ok_sync table_ok_settle)

lemma table_ok_run: "table_ok c \<Longrightarrow> table_ok (run evs c)"
  by (induction evs arbitrary: c) (simp_all add: table_ok_step)

lemma table_ok_new: "preauthPromises c = Map.empty \<Longrightarrow> promises c = [] \<Longrightarrow> table_ok c"
  by (simp add: table_ok_def)

lemma run_append: "run (evs @ evs') c = run evs' (run evs c)"
  by (induction evs arbitrary: c) simp_all

lemma entry_kept_step: "preauthPromises c a = Some h \<Longrightarrow> preauthPromises (step e c) a = Some h"
  by (cases e)
     (auto simp: twoFactorRetry_sync_def get_preauthPromise_def settle_def
           split: option.splits if_splits slot.splits)

lemma entry_kept_run: "preauthPromises c a = Some h \<Longrightarrow> preauthPromises (run evs c) a = Some h"
  by (induction evs arbitrary: c) (simp_all add: entry_kept_step)

lemma preauth_step: "opt_preauth (step e c) = opt_preauth c"
  by (cases e)
     (auto simp: twoFactorRetry_sync_def get_preauthPromise_def settle_def
           split: option.splits if_splits slot.splits)

lemma preauth_run: "opt_preauth (run evs c) = opt_preauth c"
  by (induction evs arbitrary: c) (simp_all add: preauth_step)







lemma sync_again:
  "preauthPromises c a = Some h \<Longrightarrow> opt_preauth c \<Longrightarrow> a \<noteq> [] \<Longrightarrow>
     twoFactorRetry_sync (Some a) c = (Await (Promise h), c)"
  by (simp add: twoFactorRetry_sync_def get_preauthPromise_def)

lemma actions_append: "actions (evs @ evs') c = actions evs c @ actions evs' (run evs c)"
  by (induction evs c rule: actions.induct) simp_all





lemma four_in_flight_run:
  "run four_in_flight fresh_client =
     fresh_client\<lparr>preauthPromises := [''myapp'' \<mapsto> 0, ''other'' \<mapsto> 1],
       promises := [\<lparr>task_app = ''myapp'', task_prompt = 0, settled = Some Fulfilled\<rparr>,
                    \<lparr>task_app = ''other'', task_prompt = 1, settled = None\<rparr>],
       prompts := 2\<rparr>"
  and four_in_flight_actions:
  "actions four_in_flight fresh_client =
     [(Some ''myapp'', Await (Promise 0)), (Some ''other'', Await (Promise 1)),
      (Some ''myapp'', Await (Promise 0)), (Some ''myapp'', Await (Promise 0))]"
  by (simp_all add: four_in_flight_def fresh_client_def twoFactorRetry_sync_def
      get_preauthPromise_def Object_prototype_def settle_def)




text \<open>
  For an app whose name is that of a property every object inherits, line 81 reads a
  truthy value that is not a promise: no task is created and nobody is prompted, the
  request is repeated as it is until the budget is used up, and it ends with the step-up
  error.
\<close>

lemma inherited_key_no_task:
  "actions [StepUp (Some ''constructor'')] fresh_client = [(Some ''constructor'', Await Inherited)]"
  "run [StepUp (Some ''constructor'')] fresh_client = fresh_client"
  "request constructor_app ''/apps/constructor'' no_opts 3 fresh_client =
     (Inl (HTTPError 403 (two_factor_body\<lparr>app := Some \<lparr>app_id = None, app_name = Some ''constructor''\<rparr>\<rparr>)),
      fresh_client\<lparr>attempts := [2, 1, 0]\<rparr>)"
  by (simp_all add: fresh_client_def twoFactorRetry_sync_def get_preauthPromise_def
      Object_prototype_def constructor_app_def step_up_forever_def no_opts_def
      two_factor_body_def err_app_def await_slot_def twoFactorRetry_resume_def
      throw_new_HerokuAPIError_def new_HerokuAPIError_def)

lemma await_settled:
  "h < length (promises c) \<Longrightarrow> settled (promises c ! h) = Some out \<Longrightarrow>
     await_slot W (Promise h) c = (out, c)"
  by (simp add: await_slot_def)

text \<open>
  Claim C5, as amended. In every run of a newly constructed client: no two tasks, pending
  or settled, are for the same app; an entry of the table, once there, stays there with
  the same task through every later step, the settling of its task included; a step-up
  error for a non-empty app name that has no entry yet (and is not an inherited property
  name), with preauthorization enabled, creates the entry together with a pending task;
  and a step-up error for a non-empty app name that has an entry, with preauthorization
  enabled, changes nothing and waits for the task of that entry, which, when the task has
  settled, gives the task's outcome again at once.
\<close>

theorem step_up_table:
  assumes "preauthPromises c0 = Map.empty" and "promises c0 = []"
  shows "(\<forall>i j. i < length (promises (run evs c0)) \<and> j < length (promises (run evs c0))
            \<and> task_app (promises (run evs c0) ! i) = task_app (promises (run evs c0) ! j)
            \<longrightarrow> i = j)
       \<and> (\<forall>a h evs'. preauthPromises (run evs c0) a = Some h
            \<longrightarrow> preauthPromises (run (evs @ evs') c0) a = Some h)
       \<and> (\<forall>a. a \<noteq> [] \<and> a \<notin> set Object_prototype \<and> opt_preauth c0
              \<and> preauthPromises (run evs c0) a = None
            \<longrightarrow> preauthPromises (run (evs @ [StepUp (Some a)]) c0) a
                  = Some (length (promises (run evs c0)))
              \<and> promises (run (evs @ [StepUp (Some a)]) c0)
                  = promises (run evs c0)
                    @ [\<lparr>task_app = a, task_prompt = prompts (run evs c0), settled = None\<rparr>])
       \<and> (\<forall>a h. a \<noteq> [] \<and> opt_preauth c0 \<and> preauthPromises (run evs c0) a = Some h
            \<longrightarrow> run (evs @ [StepUp (Some a)]) c0 = run evs c0
              \<and> actions (evs @ [StepUp (Some a)]) c0
                  = actions evs c0 @ [(Some a, Await (Promise h))]
              \<and> h < length (promises (run evs c0))
              \<and> (\<forall>(W :: 'r world) out. settled (promises (run evs c0) ! h) = Some out
                    \<longrightarrow> await_slot W (Promise h) (run evs c0) = (out, run evs c0)))"
proof -
  have ok: "table_ok (run evs c0)"
    using assms by (intro table_ok_run table_ok_new)
  have one: "i = j"
    if "i < length (promises (run evs c0))" "j < length (promises (run evs c0))"
       "task_app (promises (run evs c0) ! i) = task_app (promises (run evs c0) ! j)" for i j
  proof -
    from ok that have "preauthPromises (run evs c0) (task_app (promises (run evs c0) ! j)) = Some i"
      and "preauthPromises (run evs c0) (task_app (promises (run evs c0) ! j)) = Some j"
      unfolding table_ok_def by blast+
    then show ?thesis by simp
  qed
  have kept: "preauthPromises (run (evs @ evs') c0) a = Some h"
    if "preauthPromises (run evs c0) a = Some h" for a h evs'
    using entry_kept_run[OF that] by (simp add: run_append)
  have made: "preauthPromises (run (evs @ [StepUp (Some a)]) c0) a = Some (length (promises (run evs c0)))
      \<and> promises (run (evs @ [StepUp (Some a)]) c0)
          = promises (run evs c0) @ [\<lparr>task_app = a, task_prompt = prompts (run evs c0), settled = None\<rparr>]"
    if "a \<noteq> []" "a \<notin> set Object_prototype" "opt_preauth c0" "preauthPromises (run evs c0) a = None" for a
  proof -
    have "get_preauthPromise (run evs c0) a = Undefined"
      using that by (simp add: get_preauthPromise_def)
    moreover have "opt_preauth (run evs c0)" using that(3) by (simp add: preauth_run)
    ultimately show ?thesis using sync_create[OF that(1)] by (simp add: run_append)
  qed
  have again: "run (evs @ [StepUp (Some a)]) c0 = run evs c0
              \<and> actions (evs @ [StepUp (Some a)]) c0
                  = actions evs c0 @ [(Some a, Await (Promise h))]
              \<and> h < length (promises (run evs c0))
              \<and> (\<forall>(W :: 'r world) out. settled (promises (run evs c0) ! h) = Some out
                    \<longrightarrow> await_slot W (Promise h) (run evs c0) = (out, run evs c0))"
    if "a \<noteq> []" "opt_preauth c0" "preauthPromises (run evs c0) a = Some h" for a h
  proof -
    have pre: "opt_preauth (run evs c0)" using that(2) by (simp add: preauth_run)
    have s: "twoFactorRetry_sync (Some a) (run evs c0) = (Await (Promise h), run evs c0)"
      using that(3) pre that(1) by (rule sync_again)
    have h: "h < length (promises (run evs c0))"
      using ok that(3) unfolding table_ok_def by blast
    show ?thesis
      using s h by (simp add: run_append actions_append await_settled)
  qed
  show ?thesis
  proof (intro conjI allI impI)
    show "i = j"
      if "i < length (promises (run evs c0)) \<and> j < length (promises (run evs c0))
          \<and> task_app (promises (run evs c0) ! i) = task_app (promises (run evs c0) ! j)" for i j
      using that one by blast
    show "preauthPromises (run (evs @ evs') c0) a = Some h"
      if "preauthPromises (run evs c0) a = Some h" for a h evs'
      using that by (rule kept)
    show "preauthPromises (run (evs @ [StepUp (Some a)]) c0) a = Some (length (promises (run evs c0)))"
      if "a \<noteq> [] \<and> a \<notin> set Object_prototype \<and> opt_preauth c0
          \<and> preauthPromises (run evs c0) a = None" for a
      using that made by blast
    show "promises (run (evs @ [StepUp (Some a)]) c0)
            = promises (run evs c0) @ [\<lparr>task_app = a, task_prompt = prompts (run evs c0), settled = None\<rparr>]"
      if "a \<noteq> [] \<and> a \<notin> set Object_prototype \<and> opt_preauth c0
          \<and> preauthPromises (run evs c0) a = None" for a
      using that made by blast
    show "run (evs @ [StepUp (Some a)]) c0 = run evs c0"
      if "a \<noteq> [] \<and> opt_preauth c0 \<and> preauthPromises (run evs c0) a = Some h" for a h
      using that again by blast
    show "actions (evs @ [StepUp (Some a)]) c0 = actions evs c0 @ [(Some a, Await (Promise h))]"
      if "a \<noteq> [] \<and> opt_preauth c0 \<and> preauthPromises (run evs c0) a = Some h" for a h
      using that again by blast
    show "h < length (promises (run evs c0))"
      if "a \<noteq> [] \<and> opt_preauth c0 \<and> preauthPromises (run evs c0) a = Some h" for a h
      using that again by blast
    show "await_slot W (Promise h) (run evs c0) = (out, run evs c0)"
      if "a \<noteq> [] \<and> opt_preauth c0 \<and> preauthPromises (run evs c0) a = Some h"
        and "settled (promises (run evs c0) ! h) = Some out"
      for a h and W :: "'r world" and out
      using that again by blast
  qed
qed

theorem step_up_table_witness:
  "preauthPromises (run (four_in_flight @ [Settle 1 (Rejected (Error ''preauthorization failed''))])
      fresh_client) ''myapp'' = Some 0
   \<and> preauthPromises (run ([] @ [StepUp (Some ''myapp'')]) fresh_client) ''myapp'' = Some 0
   \<and> promises (run ([] @ [StepUp (Some ''myapp'')]) fresh_client)
       = [\<lparr>task_app = ''myapp'', task_prompt = 0, settled = None\<rparr>]
   \<and> run (four_in_flight @ [StepUp (Some ''myapp'')]) fresh_client = run four_in_flight fresh_client
   \<and> actions (four_in_flight @ [StepUp (Some ''myapp'')]) fresh_client
       = actions four_in_flight fresh_client @ [(Some ''myapp'', Await (Promise 0))]
   \<and> await_slot step_up_forever (Promise 0) (run four_in_flight fresh_client)
       = (Fulfilled, run four_in_flight fresh_client)"
proof -
  have new: "preauthPromises fresh_client = Map.empty" "promises fresh_client = []"
    by (simp_all add: fresh_client_def)
  have e: "preauthPromises (run four_in_flight fresh_client) ''myapp'' = Some 0"
    by (simp add: four_in_flight_run)
  have f: "''myapp'' \<noteq> [] \<and> ''myapp'' \<notin> set Object_prototype \<and> opt_preauth fresh_client
           \<and> preauthPromises (run [] fresh_client) ''myapp'' = None"
    by (simp add: fresh_client_def Object_prototype_def)
  have g: "''myapp'' \<noteq> [] \<and> opt_preauth fresh_client
           \<and> preauthPromises (run four_in_flight fresh_client) ''myapp'' = Some 0"
    using e by (simp add: fresh_client_def)
  have s: "settled (promises (run four_in_flight fresh_client) ! 0) = Some Fulfilled"
    by (simp add: four_in_flight_run)
  note kept = step_up_table[where 'r = unit, OF new, of four_in_flight,
      THEN conjunct2, THEN conjunct1, THEN spec, THEN spec, THEN spec, THEN mp]
  have 1: "preauthPromises (run (four_in_flight @ [Settle 1 (Rejected (Error ''preauthorization failed''))])
      fresh_client) ''myapp'' = Some 0"
    by (rule kept) (rule e)
  note made = step_up_table[where 'r = unit, OF new, of "[]",
      THEN conjunct2, THEN conjunct2, THEN conjunct1, THEN spec, THEN mp, OF f]
  have 2: "preauthPromises (run ([] @ [StepUp (Some ''myapp'')]) fresh_client) ''myapp'' = Some 0"
    "promises (run ([] @ [StepUp (Some ''myapp'')]) fresh_client)
       = [\<lparr>task_app = ''myapp'', task_prompt = 0, settled = None\<rparr>]"
    using made by (simp_all add: fresh_client_def)
  note again = step_up_table[where 'r = unit, OF new, of four_in_flight,
      THEN conjunct2, THEN conjunct2, THEN conjunct2, THEN spec, THEN spec, THEN mp, OF g]
  from again have 3: "run (four_in_flight @ [StepUp (Some ''myapp'')]) fresh_client
                        = run four_in_flight fresh_client"
    by (rule conjunct1)
  from again have 4: "actions (four_in_flight @ [StepUp (Some ''myapp'')]) fresh_client
         = actions four_in_flight fresh_client @ [(Some ''myapp'', Await (Promise 0))]"
    by (elim conjE)
  from again have "\<forall>(W :: unit world) out.
       settled (promises (run four_in_flight fresh_client) ! 0) = Some out
         \<longrightarrow> await_slot W (Promise 0) (run four_in_flight fresh_client)
               = (out, run four_in_flight fresh_client)"
    by (elim conjE)
  then have 5: "await_slot step_up_forever (Promise 0) (run four_in_flight fresh_client)
         = (Fulfilled, run four_in_flight fresh_client)"
    using s by blast
  show ?thesis
    using 1 2 3 4 5 by (intro conjI)
qed

text \<open>
  Claim C5 as stated fails: the entry is not removed when its task settles, with success
  or with failure. The code never deletes from the table.
\<close>

theorem step_up_table_counterexample:
  "preauthPromises (run [StepUp (Some ''myapp''), Settle 0 Fulfilled] fresh_client) ''myapp'' = Some 0
   \<and> settled (promises (run [StepUp (Some ''myapp''), Settle 0 Fulfilled] fresh_client) ! 0)
       = Some Fulfilled
   \<and> preauthPromises (run [StepUp (Some ''myapp''),
                            Settle 0 (Rejected (Error ''preauthorization failed''))] fresh_client)
       ''myapp'' = Some 0
   \<and> settled (promises (run [StepUp (Some ''myapp''),
                                Settle 0 (Rejected (Error ''preauthorization failed''))] fresh_client) ! 0)
       = Some (Rejected (Error ''preauthorization failed''))"
  by (simp add: fresh_client_def twoFactorRetry_sync_def get_preauthPromise_def
      Object_prototype_def settle_def)

subsection \<open>Credential resolution\<close>

text \<open>
  Claim C4, as amended. The getter returns the field \<^verbatim>\<open>_auth\<close> when it holds a non-empty
  value (an assigned override or an earlier result), reading nothing else; otherwise the
  environment's \<^verbatim>\<open>HEROKU_API_KEY\<close> when that is non-empty, without a warning and without
  loading the store; otherwise it loads the store and returns the password stored for the
  API host, which may be absent, after warning when \<^verbatim>\<open>HEROKU_API_TOKEN\<close> is set. A result that
  is a non-empty credential is cached: every later call returns it and changes nothing,
  whatever the environment and the store then hold.
\<close>

theorem auth_resolution:
  "(truthy (priv_auth c) \<longrightarrow> auth v c d = (priv_auth c, c, d))
   \<and> (\<not> truthy (priv_auth c) \<and> truthy (env d ''HEROKU_API_KEY'') \<longrightarrow>
        auth v c d = (env d ''HEROKU_API_KEY'', c\<lparr>priv_auth := env d ''HEROKU_API_KEY''\<rparr>, d))
   \<and> (\<not> truthy (priv_auth c) \<and> \<not> truthy (env d ''HEROKU_API_KEY'') \<longrightarrow>
        auth v c d =
          (case netrc_file d (apiHost v) of None \<Rightarrow> None | Some m \<Rightarrow> m ''password'',
           c\<lparr>priv_auth := (case netrc_file d (apiHost v) of None \<Rightarrow> None | Some m \<Rightarrow> m ''password'')\<rparr>,
           d\<lparr>warnings := warnings d @
                 (if truthy (env d ''HEROKU_API_TOKEN'')
                  then [Warning ''HEROKU_API_TOKEN is set but you probably meant HEROKU_API_KEY''] else []),
             machines := netrc_file d\<rparr>))
   \<and> (truthy (fst (auth v c d)) \<longrightarrow>
        (\<forall>d'. auth v (fst (snd (auth v c d))) d' = (fst (auth v c d), fst (snd (auth v c d)), d')))"
  by (auto simp: auth_def Let_def)

theorem auth_resolution_witness:
  "auth heroku_vars fresh_client (empty_deps\<lparr>netrc_file := mypass_netrc\<rparr>) =
     (Some ''mypass'', fresh_client\<lparr>priv_auth := Some ''mypass''\<rparr>,
      empty_deps\<lparr>netrc_file := mypass_netrc, machines := mypass_netrc\<rparr>)
   \<and> auth heroku_vars (fresh_client\<lparr>priv_auth := Some ''mypass''\<rparr>) token_only_deps =
     (Some ''mypass'', fresh_client\<lparr>priv_auth := Some ''mypass''\<rparr>, token_only_deps)
   \<and> auth heroku_vars fresh_client
        (token_only_deps\<lparr>env := (env token_only_deps)(''HEROKU_API_KEY'' \<mapsto> ''key'')\<rparr>) =
     (Some ''key'', fresh_client\<lparr>priv_auth := Some ''key''\<rparr>,
      token_only_deps\<lparr>env := (env token_only_deps)(''HEROKU_API_KEY'' \<mapsto> ''key'')\<rparr>)"
proof -
  have 1: "\<not> truthy (priv_auth fresh_client)
           \<and> \<not> truthy (env (empty_deps\<lparr>netrc_file := mypass_netrc\<rparr>) ''HEROKU_API_KEY'')"
    by (simp add: truthy_def fresh_client_def empty_deps_def)
  have 2: "truthy (priv_auth (fresh_client\<lparr>priv_auth := Some ''mypass''\<rparr>))"
    by (simp add: truthy_def)
  have 3: "\<not> truthy (priv_auth fresh_client)
           \<and> truthy (env (token_only_deps\<lparr>env := (env token_only_deps)(''HEROKU_API_KEY'' \<mapsto> ''key'')\<rparr>)
                    ''HEROKU_API_KEY'')"
    by (simp add: truthy_def fresh_client_def)
  from auth_resolution[of fresh_client heroku_vars "empty_deps\<lparr>netrc_file := mypass_netrc\<rparr>"] 1
    auth_resolution[of "fresh_client\<lparr>priv_auth := Some ''mypass''\<rparr>" heroku_vars token_only_deps] 2
    auth_resolution[of fresh_client heroku_vars
      "token_only_deps\<lparr>env := (env token_only_deps)(''HEROKU_API_KEY'' \<mapsto> ''key'')\<rparr>"] 3
  show ?thesis
    by (simp add: heroku_vars_def mypass_netrc_def empty_deps_def truthy_def)
qed

text \<open>
  Claim C4 as stated fails when no credential is found: nothing is cached then. With only
  the deprecated variable set and an empty store, the first call returns no credential;
  the second call warns again and loads the store again; and once the store has an entry
  (as after a login), the next call returns it, although an earlier call returned none.
\<close>

theorem auth_not_cached_counterexample:
  "auth heroku_vars fresh_client token_only_deps =
     (None, fresh_client,
      token_only_deps\<lparr>warnings := [Warning ''HEROKU_API_TOKEN is set but you probably meant HEROKU_API_KEY'']\<rparr>)
   \<and> warnings (snd (snd (auth heroku_vars fresh_client
        (token_only_deps\<lparr>warnings := [Warning ''HEROKU_API_TOKEN is set but you probably meant HEROKU_API_KEY'']\<rparr>))))
       = [Warning ''HEROKU_API_TOKEN is set but you probably meant HEROKU_API_KEY'',
          Warning ''HEROKU_API_TOKEN is set but you probably meant HEROKU_API_KEY'']
   \<and> fst (auth heroku_vars fresh_client
        (token_only_deps\<lparr>warnings := [Warning ''HEROKU_API_TOKEN is set but you probably meant HEROKU_API_KEY''],
                         netrc_file := mypass_netrc\<rparr>))
       = Some ''mypass''"
  by (simp add: auth_def Let_def truthy_def fresh_client_def token_only_deps_def empty_deps_def
      heroku_vars_def mypass_netrc_def)

subsection \<open>Construction and the extra headers\<close>

lemma auth_env_headers:
  "auth v c (d\<lparr>env := (env d)(''HEROKU_HEADERS'' := x)\<rparr>) =
     (case auth v c d of (a, c', d') \<Rightarrow> (a, c', d'\<lparr>env := (env d)(''HEROKU_HEADERS'' := x)\<rparr>))"
  by (simp add: auth_def Let_def)

lemma auth_field: "auth v c d = (a, c', d') \<Longrightarrow> priv_auth c' = a"
  by (auto simp: auth_def Let_def split: if_splits)

text \<open>A client, as constructed, has an empty step-up table and no promises.\<close>

lemma new_APIClient_table:
  assumes "new_APIClient rt v config options d = Inr (c, d')"
  shows "preauthPromises c = Map.empty \<and> promises c = []
         \<and> opt_preauth c = (preauth_option options \<noteq> Some False)"
proof -
  have keep: "preauthPromises (fst (snd (auth v c0 d))) = preauthPromises c0
              \<and> promises (fst (snd (auth v c0 d))) = promises c0
              \<and> opt_preauth (fst (snd (auth v c0 d))) = opt_preauth c0" for c0
    by (simp add: auth_def Let_def)
  from assms show ?thesis
    by (auto simp: new_APIClient_def Let_def split: sum.splits prod.splits
             dest!: arg_cong[where f = "\<lambda>x. fst (snd x)"] simp: keep[simplified])
qed

text \<open>
  Claim C10, as amended. Given an API URL that parses: if \<^verbatim>\<open>HEROKU_HEADERS\<close> is a non-empty
  text that \<^verbatim>\<open>JSON.parse\<close> rejects, the constructor throws that error and no client exists.
  If the variable is unset or empty, the client constructed is the one constructed with
  \<^verbatim>\<open>HEROKU_HEADERS\<close> set to \<^verbatim>\<open>{}\<close>: construction succeeds and the default headers are
  \<^verbatim>\<open>accept\<close>, \<^verbatim>\<open>user-agent\<close> and, when a credential was resolved, \<^verbatim>\<open>authorization\<close>.
\<close>

theorem new_APIClient_env_headers:
  "(env d ''HEROKU_HEADERS'' = Some s \<and> s \<noteq> [] \<and> JSON_parse rt s = Inl e
      \<and> URL_host rt (apiUrl v) = Inr h
      \<longrightarrow> new_APIClient rt v config options d = Inl e)
   \<and> ((env d ''HEROKU_HEADERS'' = None \<or> env d ''HEROKU_HEADERS'' = Some [])
      \<longrightarrow> map_sum id fst (new_APIClient rt v config options d)
          = map_sum id fst (new_APIClient rt v config options
                              (d\<lparr>env := (env d)(''HEROKU_HEADERS'' \<mapsto> ''{}'')\<rparr>)))
   \<and> ((env d ''HEROKU_HEADERS'' = None \<or> env d ''HEROKU_HEADERS'' = Some [])
       \<and> JSON_parse rt ''{}'' = Inr (JObject []) \<and> URL_host rt (apiUrl v) = Inr h
      \<longrightarrow> (\<exists>c d'. new_APIClient rt v config options d = Inr (c, d')
            \<and> defaults_headers c =
                (let hs = [''accept'' \<mapsto> JString ''application/vnd.heroku+json; version=3'',
                           ''user-agent'' \<mapsto>
                              JString (''heroku-cli/'' @ version config @ '' '' @ platform config)]
                 in case priv_auth c of
                      None \<Rightarrow> hs
                    | Some tok \<Rightarrow>
                        if tok \<noteq> [] then hs(''authorization'' \<mapsto> JString (''Bearer '' @ tok))
                        else hs)))"
proof (intro conjI impI)
  assume "env d ''HEROKU_HEADERS'' = Some s \<and> s \<noteq> [] \<and> JSON_parse rt s = Inl e
      \<and> URL_host rt (apiUrl v) = Inr h"
  then show "new_APIClient rt v config options d = Inl e"
    by (simp add: new_APIClient_def)
next
  assume "env d ''HEROKU_HEADERS'' = None \<or> env d ''HEROKU_HEADERS'' = Some []"
  then show "map_sum id fst (new_APIClient rt v config options d)
          = map_sum id fst (new_APIClient rt v config options
                              (d\<lparr>env := (env d)(''HEROKU_HEADERS'' \<mapsto> ''{}'')\<rparr>))"
    by (auto simp: new_APIClient_def auth_env_headers Let_def split: sum.splits prod.splits)
next
  assume a: "(env d ''HEROKU_HEADERS'' = None \<or> env d ''HEROKU_HEADERS'' = Some [])
       \<and> JSON_parse rt ''{}'' = Inr (JObject []) \<and> URL_host rt (apiUrl v) = Inr h"
  let ?c0 = "\<lparr>opt_required = (case required options of None \<Rightarrow> True | Some r \<Rightarrow> r),
               opt_preauth = (preauth_option options \<noteq> Some False),
               priv_auth = None, defaults_host = h, defaults_headers = Map.empty,
               preauthPromises = Map.empty, promises = [], prompts = 0, attempts = []\<rparr>"
  obtain x c' d' where au: "auth v ?c0 d = (x, c', d')" by (cases "auth v ?c0 d")
  then have "priv_auth c' = x" by (rule auth_field)
  with a au
  show "\<exists>c d'. new_APIClient rt v config options d = Inr (c, d')
            \<and> defaults_headers c =
                (let hs = [''accept'' \<mapsto> JString ''application/vnd.heroku+json; version=3'',
                           ''user-agent'' \<mapsto>
                              JString (''heroku-cli/'' @ version config @ '' '' @ platform config)]
                 in case priv_auth c of
                      None \<Rightarrow> hs
                    | Some tok \<Rightarrow>
                        if tok \<noteq> [] then hs(''authorization'' \<mapsto> JString (''Bearer '' @ tok))
                        else hs)"
    by (auto simp: new_APIClient_def Let_def split: option.splits)
qed

theorem new_APIClient_env_headers_witness:
  "new_APIClient example_runtime heroku_vars example_config default_options
     (empty_deps\<lparr>env := [''HEROKU_HEADERS'' \<mapsto> ''{oops'']\<rparr>)
     = Inl (SyntaxError ''Unexpected token o in JSON at position 1'')
   \<and> map_sum id fst (new_APIClient example_runtime heroku_vars example_config default_options empty_deps)
     = map_sum id fst (new_APIClient example_runtime heroku_vars example_config default_options
         (empty_deps\<lparr>env := (env empty_deps)(''HEROKU_HEADERS'' \<mapsto> ''{}'')\<rparr>))
   \<and> (\<exists>c d'. new_APIClient example_runtime heroku_vars example_config default_options empty_deps
              = Inr (c, d'))"
proof -
  have 1: "env (empty_deps\<lparr>env := [''HEROKU_HEADERS'' \<mapsto> ''{oops'']\<rparr>) ''HEROKU_HEADERS'' = Some ''{oops''
      \<and> ''{oops'' \<noteq> []
      \<and> JSON_parse example_runtime ''{oops'' = Inl (SyntaxError ''Unexpected token o in JSON at position 1'')
      \<and> URL_host example_runtime (apiUrl heroku_vars) = Inr ''api.heroku.com''"
    by (simp add: example_runtime_def)
  have 2: "env empty_deps ''HEROKU_HEADERS'' = None \<or> env empty_deps ''HEROKU_HEADERS'' = Some []"
    by (simp add: empty_deps_def)
  have 3: "(env empty_deps ''HEROKU_HEADERS'' = None \<or> env empty_deps ''HEROKU_HEADERS'' = Some [])
      \<and> JSON_parse example_runtime ''{}'' = Inr (JObject [])
      \<and> URL_host example_runtime (apiUrl heroku_vars) = Inr ''api.heroku.com''"
    by (simp add: example_runtime_def empty_deps_def)
  from new_APIClient_env_headers
         [of "empty_deps\<lparr>env := [''HEROKU_HEADERS'' \<mapsto> ''{oops'']\<rparr>" "''{oops''" example_runtime
             "SyntaxError ''Unexpected token o in JSON at position 1''" heroku_vars "''api.heroku.com''"
             example_config default_options] 1
  have a: "new_APIClient example_runtime heroku_vars example_config default_options
     (empty_deps\<lparr>env := [''HEROKU_HEADERS'' \<mapsto> ''{oops'']\<rparr>)
     = Inl (SyntaxError ''Unexpected token o in JSON at position 1'')"
    by blast
  from new_APIClient_env_headers
         [of empty_deps s example_runtime e heroku_vars "''api.heroku.com''"
             example_config default_options] 2 3
  have b: "map_sum id fst (new_APIClient example_runtime heroku_vars example_config default_options empty_deps)
     = map_sum id fst (new_APIClient example_runtime heroku_vars example_config default_options
         (empty_deps\<lparr>env := (env empty_deps)(''HEROKU_HEADERS'' \<mapsto> ''{}'')\<rparr>))"
    and c: "\<exists>c d'. new_APIClient example_runtime heroku_vars example_config default_options empty_deps
              = Inr (c, d')"
    by blast+
  from a b c show ?thesis by blast
qed

text \<open>
  Claim C10 as stated fails for the empty text: it is not valid JSON, and with
  \<^verbatim>\<open>HEROKU_HEADERS\<close> set to it the constructor does not throw, because line 53 replaces an
  empty value by \<^verbatim>\<open>{}\<close> before parsing.
\<close>

theorem new_APIClient_empty_headers_counterexample:
  "JSON_parse example_runtime [] = Inl (SyntaxError ''Unexpected end of JSON input'')
   \<and> new_APIClient example_runtime heroku_vars example_config default_options
        (empty_deps\<lparr>env := [''HEROKU_HEADERS'' \<mapsto> []]\<rparr>)
     = Inr (fresh_client, empty_deps\<lparr>env := [''HEROKU_HEADERS'' \<mapsto> []]\<rparr>)"
  by (simp add: new_APIClient_def example_runtime_def heroku_vars_def example_config_def
      default_options_def empty_deps_def fresh_client_def auth_def Let_def truthy_def)

subsection \<open>Logout\<close>

lemmas login_defs = login_prepare_def loadSettings_def saveSettings_def saveToken_def save_machine_def
  run_strategy_def interactive_def createOAuthToken_def prompt_def set_auth_def
  logout_def authorizations_chain_def defaultToken_def auth_def Promise_all_def
  catch_session_def catch_authorizations_def session_gone_def unauthorized_def authorization_gone_def
  has_http_def http_status_def http_body_def truthy_def enableBrowserLogin_def Let_def
  List.map_filter_simps

lemma auth_resolved: "auth v c d = (a, c1, d1) \<Longrightarrow> resolved v a c1 d1"
  by (auto simp: auth_def Let_def resolved_def split: if_splits)

lemma resolved_auth:
  "resolved v a c d \<Longrightarrow> \<exists>d'. auth v c d = (a, c, d') \<and> resolved v a c d' \<and> calls d' = calls d"
  by (auto simp: auth_def Let_def resolved_def truthy_def split: option.splits)

lemma auth_calls: "calls (snd (snd (auth v c d))) = calls d"
  by (simp add: auth_def Let_def)

lemma auth_set_calls:
  "auth v c (d\<lparr>calls := x\<rparr>) = (case auth v c d of (a, c', d') \<Rightarrow> (a, c', d'\<lparr>calls := x\<rparr>))"
  by (simp add: auth_def Let_def)

lemma auth_set_calls_fst: "fst (auth v c (d\<lparr>calls := x\<rparr>)) = fst (auth v c d)"
  by (cases "auth v c d") (simp add: auth_set_calls)

lemma filter_current_resolved:
  "resolved v cur c d \<Longrightarrow>
     \<exists>c' d'. filter_current v as c d =
        (filter (\<lambda>a. case access_token a of None \<Rightarrow> False | Some t \<Rightarrow> token t = cur) as, c', d')
        \<and> calls d' = calls d"
proof (induction as arbitrary: c d)
  case Nil
  then show ?case by simp
next
  case (Cons a as)
  show ?case
  proof (cases "access_token a")
    case None
    with Cons.IH[OF Cons.prems] show ?thesis by simp
  next
    case (Some t)
    from resolved_auth[OF Cons.prems] obtain d1 where
      a1: "auth v c d = (cur, c, d1)" and r1: "resolved v cur c d1" and c1: "calls d1 = calls d"
      by blast
    from Cons.IH[OF r1] obtain c' d' where
      "filter_current v as c d1 =
        (filter (\<lambda>a. case access_token a of None \<Rightarrow> False | Some t \<Rightarrow> token t = cur) as, c', d')"
      "calls d' = calls d1" by blast
    with Some a1 c1 show ?thesis by simp
  qed
qed

lemma status_has_http: "http_status err = Some s \<Longrightarrow> has_http err"
  by (auto simp: http_status_def has_http_def split: error.splits)

lemma benign_has_http: "session_gone err \<or> unauthorized err \<or> authorization_gone err \<Longrightarrow> has_http err"
  by (auto simp: session_gone_def unauthorized_def authorization_gone_def dest: status_has_http)

lemma catch_session_eq:
  "catch_session err = (if session_gone err \<or> unauthorized err then Inr () else Inl err)"
  using benign_has_http[of err] by (auto simp: catch_session_def)

lemma catch_authorizations_eq:
  "catch_authorizations err = (if unauthorized err then Inr () else Inl err)"
  using benign_has_http[of err] by (auto simp: catch_authorizations_def)

lemma defaultToken_set_calls:
  "defaultToken v W c (d\<lparr>calls := x\<rparr>) =
     (case defaultToken v W c d of
        (r, c', d') \<Rightarrow> (r, c', d'\<lparr>calls := x @ [GetDefaultAuthorization (fst (auth v c d))]\<rparr>))"
  by (simp add: defaultToken_def auth_set_calls split: prod.splits sum.splits)

lemma defaultToken_set_calls_fst: "fst (defaultToken v W c (d\<lparr>calls := x\<rparr>)) = fst (defaultToken v W c d)"
  by (cases "defaultToken v W c d") (simp add: defaultToken_set_calls)

lemma defaultToken_state:
  "\<exists>c1 d1. defaultToken v W c d = (fst (defaultToken v W c d), c1, d1)
      \<and> resolved v (fst (auth v c d)) c1 d1
      \<and> calls d1 = calls d @ [GetDefaultAuthorization (fst (auth v c d))]"
proof -
  obtain cur c1 d1 where a: "auth v c d = (cur, c1, d1)" by (cases "auth v c d")
  from auth_resolved[OF a] have r: "resolved v cur c1 d1" .
  from a auth_calls[of v c d] have k: "calls d1 = calls d" by simp
  show ?thesis
    using a r k
    by (auto simp: defaultToken_def resolved_def split: sum.splits)
qed

text \<open>
  What \<^verbatim>\<open>defaultToken\<close> returns or throws, by the answer to its request: the token of the
  authorization returned; no token when the request fails in one of the two ways lines 405
  and 406 tolerate; and otherwise the error of the request.
\<close>

lemma defaultToken_result:
  "fst (defaultToken v W c d) =
     (case http_get_default_authorization W (fst (auth v c d)) of
        Inr a \<Rightarrow> Inr (case access_token a of None \<Rightarrow> None | Some t \<Rightarrow> token t)
      | Inl err \<Rightarrow> if authorization_gone err \<or> unauthorized err then Inr None else Inl err)"
proof -
  obtain cur c1 d1 where a: "auth v c d = (cur, c1, d1)" by (cases "auth v c d")
  show ?thesis
  proof (cases "http_get_default_authorization W cur")
    case (Inr x)
    with a show ?thesis by (simp add: defaultToken_def)
  next
    case (Inl err)
    with a benign_has_http[of err] show ?thesis by (auto simp: defaultToken_def)
  qed
qed

lemma defaultToken_Inl: "fst (defaultToken v W c d) = Inl err \<Longrightarrow> \<not> unauthorized err"
  unfolding defaultToken_result by (auto split: sum.splits if_splits)

text \<open>
  What the authorizations chain settles with, and the requests logged in each of the
  states in which it waits.
\<close>

lemma chain_result:
  "fst (authorizations_chain v W tok c d) =
     (case http_get_authorizations W tok of
        Inl err \<Rightarrow> if unauthorized err then Inr () else Inl err
      | Inr auths \<Rightarrow>
          (case fst (defaultToken v W c d) of
             Inl err \<Rightarrow> Inl err
           | Inr dt \<Rightarrow>
               if dt = Some tok then Inr ()
               else (case Promise_all W
                            (map (\<lambda>a. case http_delete_authorization W (authorization_id a) tok of
                                         None \<Rightarrow> Inr ()
                                       | Some e \<Rightarrow> Inl e)
                               (filter (\<lambda>a. case access_token a of None \<Rightarrow> False
                                              | Some t \<Rightarrow> token t = fst (auth v c d)) auths)) of
                       Inr u \<Rightarrow> Inr ()
                     | Inl err \<Rightarrow> if unauthorized err then Inr () else Inl err)))"
proof (cases "http_get_authorizations W tok")
  case (Inl err)
  then show ?thesis by (simp add: authorizations_chain_def catch_authorizations_eq)
next
  case (Inr auths)
  from defaultToken_state[of v W c d] obtain c1 d1 where
    dt: "defaultToken v W c d = (fst (defaultToken v W c d), c1, d1)"
    and r: "resolved v (fst (auth v c d)) c1 d1"
    by blast
  from filter_current_resolved[OF r, of auths] obtain c2 d2 where
    f: "filter_current v auths c1 d1 =
        (filter (\<lambda>a. case access_token a of None \<Rightarrow> False | Some t \<Rightarrow> token t = fst (auth v c d)) auths,
         c2, d2)"
    by blast
  show ?thesis
  proof (cases "fst (defaultToken v W c d)")
    case (Inl err)
    with dt have "defaultToken v W c d = (Inl err, c1, d1)" by simp
    with Inr Inl defaultToken_Inl[OF Inl] show ?thesis
      by (simp add: authorizations_chain_def catch_authorizations_eq)
  next
    case (Inr x)
    with dt have "defaultToken v W c d = (Inr x, c1, d1)" by simp
    with \<open>http_get_authorizations W tok = Inr auths\<close> Inr f show ?thesis
      by (simp add: authorizations_chain_def catch_authorizations_eq split: sum.splits)
  qed
qed

lemma chain_stages:
  "map (\<lambda>s. calls (snd s)) (snd (authorizations_chain v W tok c d)) =
     (case http_get_authorizations W tok of
        Inl err \<Rightarrow> [calls d]
      | Inr auths \<Rightarrow>
          (case fst (defaultToken v W c d) of
             Inl err \<Rightarrow> [calls d, calls d @ [GetDefaultAuthorization (fst (auth v c d))]]
           | Inr dt \<Rightarrow>
               if dt = Some tok
               then [calls d, calls d @ [GetDefaultAuthorization (fst (auth v c d))]]
               else [calls d, calls d @ [GetDefaultAuthorization (fst (auth v c d))],
                     calls d @ [GetDefaultAuthorization (fst (auth v c d))]
                       @ map (\<lambda>a. DeleteAuthorization (authorization_id a) tok)
                           (filter (\<lambda>a. case access_token a of None \<Rightarrow> False
                                          | Some t \<Rightarrow> token t = fst (auth v c d)) auths)]))"
proof (cases "http_get_authorizations W tok")
  case (Inl err)
  then show ?thesis by (simp add: authorizations_chain_def)
next
  case (Inr auths)
  from defaultToken_state[of v W c d] obtain c1 d1 where
    dt: "defaultToken v W c d = (fst (defaultToken v W c d), c1, d1)"
    and r: "resolved v (fst (auth v c d)) c1 d1"
    and k: "calls d1 = calls d @ [GetDefaultAuthorization (fst (auth v c d))]"
    by blast
  from filter_current_resolved[OF r, of auths] obtain c2 d2 where
    f: "filter_current v auths c1 d1 =
        (filter (\<lambda>a. case access_token a of None \<Rightarrow> False | Some t \<Rightarrow> token t = fst (auth v c d)) auths,
         c2, d2)"
    and k2: "calls d2 = calls d1" by blast
  show ?thesis
  proof (cases "fst (defaultToken v W c d)")
    case (Inl err)
    with dt have "defaultToken v W c d = (Inl err, c1, d1)" by simp
    with Inr Inl k show ?thesis by (simp add: authorizations_chain_def)
  next
    case (Inr x)
    with dt have "defaultToken v W c d = (Inr x, c1, d1)" by simp
    with \<open>http_get_authorizations W tok = Inr auths\<close> Inr f k k2 show ?thesis
      by (simp add: authorizations_chain_def)
  qed
qed

lemma chain_first_stage: "\<exists>rest. snd (authorizations_chain v W tok c d) = (c, d) # rest"
  by (auto simp: authorizations_chain_def split: sum.splits prod.splits)

text \<open>
  \<^verbatim>\<open>logout\<close> with a token: what it returns or throws, and the state it ends in, by the
  outcome \<open>r1\<close> of the session deletion after its handler.
\<close>

lemma logout_unfold:
  assumes "tok \<noteq> []"
  shows "logout v W (Some tok) c d =
           (let ch = authorizations_chain v W tok c
                       (d\<lparr>calls := calls d @ [DeleteSession tok, GetAuthorizations tok]\<rparr>)
            in case (case http_delete_session W tok of
                       None \<Rightarrow> Inr ()
                     | Some err \<Rightarrow> if session_gone err \<or> unauthorized err then Inr () else Inl err) of
                 Inr u \<Rightarrow> (fst ch, last (snd ch))
               | Inl e1 \<Rightarrow>
                   if session_answer W < length (snd ch)
                   then (Inl e1, snd ch ! session_answer W)
                   else (case fst ch of
                           Inl e2 \<Rightarrow> (Inl e2, last (snd ch))
                         | Inr u \<Rightarrow> (Inl e1, last (snd ch))))"
  using assms
  by (cases "authorizations_chain v W tok c
               (d\<lparr>calls := calls d @ [DeleteSession tok, GetAuthorizations tok]\<rparr>)";
      cases "http_delete_session W tok")
     (simp_all add: logout_def catch_session_eq Let_def split: sum.splits)

lemma pick_stage: "xs \<noteq> [] \<Longrightarrow> (if P \<and> k < length xs then xs ! k else last xs) \<in> set xs"
  by simp

lemma logout_calls:
  assumes "tok \<noteq> []"
  shows "calls (snd (snd (logout v W (Some tok) c d))) =
           (let L = map (\<lambda>s. calls (snd s))
                      (snd (authorizations_chain v W tok c
                              (d\<lparr>calls := calls d @ [DeleteSession tok, GetAuthorizations tok]\<rparr>)))
            in if (case http_delete_session W tok of
                     None \<Rightarrow> False
                   | Some e \<Rightarrow> \<not> (session_gone e \<or> unauthorized e))
                  \<and> session_answer W < length L
               then L ! session_answer W else last L)"
proof -
  let ?ch = "authorizations_chain v W tok c
               (d\<lparr>calls := calls d @ [DeleteSession tok, GetAuthorizations tok]\<rparr>)"
  from chain_first_stage[of v W tok c "d\<lparr>calls := calls d @ [DeleteSession tok, GetAuthorizations tok]\<rparr>"]
  have ne: "snd ?ch \<noteq> []" by auto
  show ?thesis
    unfolding logout_unfold[OF assms] Let_def
    using ne
    by (cases "http_delete_session W tok"; cases "fst ?ch")
       (simp_all add: last_map)
qed

lemma logout_calls_cases:
  assumes "tok \<noteq> []"
  shows "calls (snd (snd (logout v W (Some tok) c d)))
           = calls d @ [DeleteSession tok, GetAuthorizations tok]
       \<or> calls (snd (snd (logout v W (Some tok) c d)))
           = calls d @ [DeleteSession tok, GetAuthorizations tok,
                        GetDefaultAuthorization (fst (auth v c d))]
       \<or> (\<exists>auths dt. http_get_authorizations W tok = Inr auths
            \<and> fst (defaultToken v W c d) = Inr dt \<and> dt \<noteq> Some tok
            \<and> calls (snd (snd (logout v W (Some tok) c d)))
                = calls d @ [DeleteSession tok, GetAuthorizations tok,
                             GetDefaultAuthorization (fst (auth v c d))]
                  @ map (\<lambda>a. DeleteAuthorization (authorization_id a) tok)
                      (filter (\<lambda>a. case access_token a of None \<Rightarrow> False
                                     | Some t \<Rightarrow> token t = fst (auth v c d)) auths))"
proof -
  let ?d1 = "d\<lparr>calls := calls d @ [DeleteSession tok, GetAuthorizations tok]\<rparr>"
  let ?L = "map (\<lambda>s. calls (snd s)) (snd (authorizations_chain v W tok c ?d1))"
  let ?b = "calls d @ [DeleteSession tok, GetAuthorizations tok]"
  let ?g = "GetDefaultAuthorization (fst (auth v c d))"
  have L: "?L = [?b] \<or> ?L = [?b, ?b @ [?g]]
      \<or> (\<exists>auths dt. http_get_authorizations W tok = Inr auths
            \<and> fst (defaultToken v W c d) = Inr dt \<and> dt \<noteq> Some tok
            \<and> ?L = [?b, ?b @ [?g],
                     ?b @ [?g] @ map (\<lambda>a. DeleteAuthorization (authorization_id a) tok)
                      (filter (\<lambda>a. case access_token a of None \<Rightarrow> False
                                     | Some t \<Rightarrow> token t = fst (auth v c d)) auths)])"
    unfolding chain_stages auth_set_calls_fst defaultToken_set_calls_fst
    by (auto split: sum.splits)
  have pick: "calls (snd (snd (logout v W (Some tok) c d))) \<in> set ?L"
  proof -
    have "?L \<noteq> []" using L by auto
    then show ?thesis
      unfolding logout_calls[OF assms] Let_def by (rule pick_stage)
  qed
  from L show ?thesis
  proof (elim disjE exE conjE)
    assume "?L = [?b]"
    with pick show ?thesis by simp
  next
    assume "?L = [?b, ?b @ [?g]]"
    with pick show ?thesis by auto
  next
    fix auths dt
    assume a: "http_get_authorizations W tok = Inr auths" "fst (defaultToken v W c d) = Inr dt"
      "dt \<noteq> Some tok"
      and l: "?L = [?b, ?b @ [?g],
                     ?b @ [?g] @ map (\<lambda>a. DeleteAuthorization (authorization_id a) tok)
                      (filter (\<lambda>a. case access_token a of None \<Rightarrow> False
                                     | Some t \<Rightarrow> token t = fst (auth v c d)) auths)]"
    from pick l a show ?thesis by auto
  qed
qed

lemma logout_calls_full:
  assumes "tok \<noteq> []"
    and "http_get_authorizations W tok = Inr auths" and "fst (defaultToken v W c d) = Inr dt"
    and "(case http_delete_session W tok of
            None \<Rightarrow> True
          | Some err \<Rightarrow> session_gone err \<or> unauthorized err) \<or> 2 \<le> session_answer W"
  shows "calls (snd (snd (logout v W (Some tok) c d))) =
           calls d @ [DeleteSession tok, GetAuthorizations tok,
                      GetDefaultAuthorization (fst (auth v c d))]
           @ (if dt = Some tok then []
              else map (\<lambda>a. DeleteAuthorization (authorization_id a) tok)
                     (filter (\<lambda>a. case access_token a of None \<Rightarrow> False
                                    | Some t \<Rightarrow> token t = fst (auth v c d)) auths))"
proof -
  let ?d1 = "d\<lparr>calls := calls d @ [DeleteSession tok, GetAuthorizations tok]\<rparr>"
  let ?L = "map (\<lambda>s. calls (snd s)) (snd (authorizations_chain v W tok c ?d1))"
  let ?b = "calls d @ [DeleteSession tok, GetAuthorizations tok]"
  let ?g = "GetDefaultAuthorization (fst (auth v c d))"
  let ?dels = "map (\<lambda>a. DeleteAuthorization (authorization_id a) tok)
                 (filter (\<lambda>a. case access_token a of None \<Rightarrow> False
                                | Some t \<Rightarrow> token t = fst (auth v c d)) auths)"
  have L: "?L = (if dt = Some tok then [?b, ?b @ [?g]] else [?b, ?b @ [?g], ?b @ [?g] @ ?dels])"
    unfolding chain_stages auth_set_calls_fst defaultToken_set_calls_fst
    using assms(2,3) by simp
  show ?thesis
  proof (cases "dt = Some tok")
    case True
    with L have l: "?L = [?b, ?b @ [?g]]" by simp
    show ?thesis
      unfolding logout_calls[OF assms(1)] Let_def l
      using assms(4) True by (auto split: option.splits simp: nth_Cons')
  next
    case False
    with L have l: "?L = [?b, ?b @ [?g], ?b @ [?g] @ ?dels]" by simp
    have k: "session_answer W < 3 \<Longrightarrow> 2 \<le> session_answer W \<Longrightarrow> session_answer W = 2" by simp
    show ?thesis
      unfolding logout_calls[OF assms(1)] Let_def l
      using assms(4) False k by (auto split: option.splits simp: nth_Cons')
  qed
qed

lemma logout_session_first:
  assumes "tok \<noteq> []" and "http_delete_session W tok = Some e1"
    and "\<not> session_gone e1" and "\<not> unauthorized e1" and "session_answer W = 0"
  shows "logout v W (Some tok) c d =
           (Inl e1, c, d\<lparr>calls := calls d @ [DeleteSession tok, GetAuthorizations tok]\<rparr>)"
proof -
  from chain_first_stage[of v W tok c "d\<lparr>calls := calls d @ [DeleteSession tok, GetAuthorizations tok]\<rparr>"]
  obtain rest where
    "snd (authorizations_chain v W tok c
            (d\<lparr>calls := calls d @ [DeleteSession tok, GetAuthorizations tok]\<rparr>))
       = (c, d\<lparr>calls := calls d @ [DeleteSession tok, GetAuthorizations tok]\<rparr>) # rest"
    by blast
  then show ?thesis
    unfolding logout_unfold[OF assms(1)] Let_def using assms(2-5) by simp
qed

text \<open>
  Claim C6, as amended. A logout with a token issues the deletion of the session and the
  request for the authorization records, in that order, before anything else. A record is
  deleted only when the records were returned and the default token was determined (the
  lookup returned it, or failed in one of the two ways \<^verbatim>\<open>defaultToken\<close> tolerates and there
  is none) and is not the token being logged out, and only if its access token is the
  current credential. In that case, unless the session deletion has made \<^verbatim>\<open>logout\<close> throw
  before the chain came that far, \<^verbatim>\<open>logout\<close> ends with exactly these requests issued: the
  two, the lookup of the default token, and one deletion for each record whose access
  token is the current credential; when the default token is the token being logged out,
  with the two and the lookup and no deletion. A session deletion that fails, in a way
  not tolerated, before the request for the records is answered makes \<^verbatim>\<open>logout\<close> throw its
  error with the two requests issued and nothing else. A logout without an argument is a
  logout of the current credential.
\<close>

theorem logout_cleanup:
  assumes "tok \<noteq> []"
  shows "prefix (calls d @ [DeleteSession tok, GetAuthorizations tok])
                (calls (snd (snd (logout v W (Some tok) c d))))
       \<and> (\<forall>auths dt. http_get_authorizations W tok = Inr auths
                    \<and> fst (defaultToken v W c d) = Inr dt
                    \<and> ((case http_delete_session W tok of
                           None \<Rightarrow> True
                         | Some err \<Rightarrow> session_gone err \<or> unauthorized err)
                        \<or> 2 \<le> session_answer W) \<longrightarrow>
            calls (snd (snd (logout v W (Some tok) c d))) =
              calls d @ [DeleteSession tok, GetAuthorizations tok,
                         GetDefaultAuthorization (fst (auth v c d))]
              @ (if dt = Some tok then []
                 else map (\<lambda>a. DeleteAuthorization (authorization_id a) tok)
                        (filter (\<lambda>a. case access_token a of None \<Rightarrow> False
                                        | Some t \<Rightarrow> token t = fst (auth v c d)) auths)))
       \<and> (\<forall>i t. DeleteAuthorization i t
                   \<in> set (drop (length (calls d)) (calls (snd (snd (logout v W (Some tok) c d))))) \<longrightarrow>
            t = tok
            \<and> (\<exists>auths dt a. http_get_authorizations W tok = Inr auths
                  \<and> fst (defaultToken v W c d) = Inr dt \<and> dt \<noteq> Some tok
                  \<and> a \<in> set auths \<and> authorization_id a = i
                  \<and> (case access_token a of None \<Rightarrow> False
                      | Some t \<Rightarrow> token t = fst (auth v c d))))
       \<and> fst (defaultToken v W c d) =
           (case http_get_default_authorization W (fst (auth v c d)) of
              Inr a \<Rightarrow> Inr (case access_token a of None \<Rightarrow> None | Some t \<Rightarrow> token t)
            | Inl err \<Rightarrow> if authorization_gone err \<or> unauthorized err then Inr None else Inl err)
       \<and> (\<forall>e1. http_delete_session W tok = Some e1 \<and> \<not> session_gone e1 \<and> \<not> unauthorized e1
                \<and> session_answer W = 0 \<longrightarrow>
            logout v W (Some tok) c d =
              (Inl e1, c, d\<lparr>calls := calls d @ [DeleteSession tok, GetAuthorizations tok]\<rparr>))
       \<and> (\<forall>c0 d0. auth v c d = (Some tok, c0, d0) \<longrightarrow>
            logout v W None c d = logout v W (Some tok) c0 d0)"
proof (intro conjI allI impI)
  show "prefix (calls d @ [DeleteSession tok, GetAuthorizations tok])
               (calls (snd (snd (logout v W (Some tok) c d))))"
    using logout_calls_cases[OF assms, of v W c d] by (auto simp: prefix_def)
next
  fix auths dt
  assume "http_get_authorizations W tok = Inr auths
          \<and> fst (defaultToken v W c d) = Inr dt
          \<and> ((case http_delete_session W tok of
                 None \<Rightarrow> True
               | Some err \<Rightarrow> session_gone err \<or> unauthorized err)
              \<or> 2 \<le> session_answer W)"
  then show "calls (snd (snd (logout v W (Some tok) c d))) =
              calls d @ [DeleteSession tok, GetAuthorizations tok,
                         GetDefaultAuthorization (fst (auth v c d))]
              @ (if dt = Some tok then []
                 else map (\<lambda>a. DeleteAuthorization (authorization_id a) tok)
                        (filter (\<lambda>a. case access_token a of None \<Rightarrow> False
                                        | Some t \<Rightarrow> token t = fst (auth v c d)) auths))"
    using logout_calls_full[OF assms, of W auths v c d dt] by blast
next
  fix i t
  assume a: "DeleteAuthorization i t
               \<in> set (drop (length (calls d)) (calls (snd (snd (logout v W (Some tok) c d)))))"
  from logout_calls_cases[OF assms, of v W c d] a
  have "\<exists>auths dt. http_get_authorizations W tok = Inr auths
            \<and> fst (defaultToken v W c d) = Inr dt \<and> dt \<noteq> Some tok
            \<and> DeleteAuthorization i t
                \<in> set (map (\<lambda>a. DeleteAuthorization (authorization_id a) tok)
                      (filter (\<lambda>a. case access_token a of None \<Rightarrow> False
                                     | Some t \<Rightarrow> token t = fst (auth v c d)) auths))"
    by (elim disjE exE conjE) auto
  then obtain auths dt where g: "http_get_authorizations W tok = Inr auths"
    "fst (defaultToken v W c d) = Inr dt" "dt \<noteq> Some tok"
    and m: "DeleteAuthorization i t
                \<in> set (map (\<lambda>a. DeleteAuthorization (authorization_id a) tok)
                      (filter (\<lambda>a. case access_token a of None \<Rightarrow> False
                                     | Some t \<Rightarrow> token t = fst (auth v c d)) auths))"
    by blast
  from m show "t = tok" by auto
  from m obtain a where "a \<in> set auths" "authorization_id a = i"
    "case access_token a of None \<Rightarrow> False | Some t \<Rightarrow> token t = fst (auth v c d)"
    by auto
  with g show "\<exists>auths dt a. http_get_authorizations W tok = Inr auths
                  \<and> fst (defaultToken v W c d) = Inr dt \<and> dt \<noteq> Some tok
                  \<and> a \<in> set auths \<and> authorization_id a = i
                  \<and> (case access_token a of None \<Rightarrow> False
                      | Some t \<Rightarrow> token t = fst (auth v c d))"
    by blast
next
  show "fst (defaultToken v W c d) =
           (case http_get_default_authorization W (fst (auth v c d)) of
              Inr a \<Rightarrow> Inr (case access_token a of None \<Rightarrow> None | Some t \<Rightarrow> token t)
            | Inl err \<Rightarrow> if authorization_gone err \<or> unauthorized err then Inr None else Inl err)"
    by (rule defaultToken_result)
next
  fix e1
  assume "http_delete_session W tok = Some e1 \<and> \<not> session_gone e1 \<and> \<not> unauthorized e1
                \<and> session_answer W = 0"
  then show "logout v W (Some tok) c d =
              (Inl e1, c, d\<lparr>calls := calls d @ [DeleteSession tok, GetAuthorizations tok]\<rparr>)"
    using logout_session_first[OF assms, of W e1 v c d] by blast
next
  fix c0 d0
  assume "auth v c d = (Some tok, c0, d0)"
  then show "logout v W None c d = logout v W (Some tok) c0 d0"
    by (simp add: logout_def)
qed

theorem logout_cleanup_witness:
  "calls (snd (snd (logout heroku_vars good_server (Some ''mypass'') mypass_client empty_deps)))
     = [DeleteSession ''mypass'', GetAuthorizations ''mypass'',
        GetDefaultAuthorization (Some ''mypass''), DeleteAuthorization (Some ''auth-1'') ''mypass'']
   \<and> calls (snd (snd (logout heroku_vars dashboard_server (Some ''mypass'') mypass_client empty_deps)))
     = [DeleteSession ''mypass'', GetAuthorizations ''mypass'',
        GetDefaultAuthorization (Some ''mypass'')]
   \<and> logout heroku_vars broken_server (Some ''mypass'') mypass_client empty_deps
     = (Inl (HTTPError 500 server_error_body), mypass_client,
        empty_deps\<lparr>calls := [DeleteSession ''mypass'', GetAuthorizations ''mypass'']\<rparr>)"
proof -
  have tok: "''mypass'' \<noteq> []" by simp
  have cur: "fst (auth heroku_vars mypass_client empty_deps) = Some ''mypass''"
    by (simp add: auth_def mypass_client_def truthy_def)
  have d1: "fst (defaultToken heroku_vars good_server mypass_client empty_deps) = Inr (Some ''dashboard'')"
    by (simp add: defaultToken_def auth_def mypass_client_def truthy_def good_server_def)
  have d2: "fst (defaultToken heroku_vars dashboard_server mypass_client empty_deps) = Inr (Some ''mypass'')"
    by (simp add: defaultToken_def auth_def mypass_client_def truthy_def good_server_def
        dashboard_server_def)
  have h1: "http_get_authorizations good_server ''mypass'' = Inr account_records
      \<and> fst (defaultToken heroku_vars good_server mypass_client empty_deps) = Inr (Some ''dashboard'')
      \<and> ((case http_delete_session good_server ''mypass'' of
             None \<Rightarrow> True
           | Some err \<Rightarrow> session_gone err \<or> unauthorized err)
          \<or> 2 \<le> session_answer good_server)"
    using d1 by (simp add: good_server_def)
  have h2: "http_get_authorizations dashboard_server ''mypass'' = Inr account_records
      \<and> fst (defaultToken heroku_vars dashboard_server mypass_client empty_deps) = Inr (Some ''mypass'')
      \<and> ((case http_delete_session dashboard_server ''mypass'' of
             None \<Rightarrow> True
           | Some err \<Rightarrow> session_gone err \<or> unauthorized err)
          \<or> 2 \<le> session_answer dashboard_server)"
    using d2 by (simp add: good_server_def dashboard_server_def)
  have h3: "http_delete_session broken_server ''mypass'' = Some (HTTPError 500 server_error_body)
      \<and> \<not> session_gone (HTTPError 500 server_error_body)
      \<and> \<not> unauthorized (HTTPError 500 server_error_body)
      \<and> session_answer broken_server = 0"
    by (simp add: broken_server_def good_server_def session_gone_def unauthorized_def
        http_status_def)
  note full1 = logout_cleanup[OF tok, of empty_deps heroku_vars good_server mypass_client,
      THEN conjunct2, THEN conjunct1, THEN spec, THEN spec, THEN mp, OF h1]
  note full2 = logout_cleanup[OF tok, of empty_deps heroku_vars dashboard_server mypass_client,
      THEN conjunct2, THEN conjunct1, THEN spec, THEN spec, THEN mp, OF h2]
  note first = logout_cleanup[OF tok, of empty_deps heroku_vars broken_server mypass_client,
      THEN conjunct2, THEN conjunct2, THEN conjunct2, THEN conjunct2, THEN conjunct1,
      THEN spec, THEN mp, OF h3]
  have 1: "calls (snd (snd (logout heroku_vars good_server (Some ''mypass'') mypass_client empty_deps)))
     = [DeleteSession ''mypass'', GetAuthorizations ''mypass'',
        GetDefaultAuthorization (Some ''mypass''), DeleteAuthorization (Some ''auth-1'') ''mypass'']"
    unfolding full1 cur by (simp add: empty_deps_def account_records_def)
  have 2: "calls (snd (snd (logout heroku_vars dashboard_server (Some ''mypass'') mypass_client empty_deps)))
     = [DeleteSession ''mypass'', GetAuthorizations ''mypass'',
        GetDefaultAuthorization (Some ''mypass'')]"
    unfolding full2 cur by (simp add: empty_deps_def)
  have 3: "logout heroku_vars broken_server (Some ''mypass'') mypass_client empty_deps
     = (Inl (HTTPError 500 server_error_body), mypass_client,
        empty_deps\<lparr>calls := [DeleteSession ''mypass'', GetAuthorizations ''mypass'']\<rparr>)"
    unfolding first by (simp add: empty_deps_def)
  from 1 2 3 show ?thesis by (intro conjI)
qed

text \<open>
  Claim C6 as stated fails when the lookup of the default token fails with an error that
  \<^verbatim>\<open>defaultToken\<close> rethrows (line 407): the records were returned and one of them carries
  the current credential, yet no record is deleted, and \<^verbatim>\<open>logout\<close> throws the error of the
  lookup.
\<close>

theorem logout_cleanup_counterexample:
  "logout heroku_vars lookup_fails_server (Some ''mypass'') mypass_client empty_deps
     = (Inl (HTTPError 500 server_error_body), mypass_client,
        empty_deps\<lparr>calls := [DeleteSession ''mypass'', GetAuthorizations ''mypass'',
                                GetDefaultAuthorization (Some ''mypass'')]\<rparr>)
   \<and> http_get_authorizations lookup_fails_server ''mypass'' = Inr account_records
   \<and> fst (auth heroku_vars mypass_client empty_deps) = Some ''mypass''
   \<and> map (\<lambda>a. (authorization_id a, map_option token (access_token a))) account_records
       = [(Some ''auth-1'', Some (Some ''mypass'')), (Some ''auth-2'', Some (Some ''other'')),
          (Some ''auth-3'', None)]"
  by (simp add: logout_def authorizations_chain_def defaultToken_def auth_def
      catch_session_def catch_authorizations_def session_gone_def unauthorized_def
      authorization_gone_def has_http_def http_status_def http_body_def truthy_def Let_def
      lookup_fails_server_def good_server_def mypass_client_def fresh_client_def empty_deps_def
      account_records_def server_error_body_def)

subsection \<open>Errors of logout\<close>

lemma errors_set:
  "set (List.map_filter (\<lambda>r. case r of Inl e \<Rightarrow> Some e | Inr u \<Rightarrow> None) rs) = {e. Inl e \<in> set rs}"
  by (induction rs) (auto simp: List.map_filter_simps split: sum.splits)

lemma Promise_all_Inr: "Promise_all W rs = Inr () \<longleftrightarrow> (\<forall>r \<in> set rs. r = Inr ())"
proof -
  let ?es = "List.map_filter (\<lambda>r. case r of Inl e \<Rightarrow> Some e | Inr u \<Rightarrow> None) rs"
  have "Promise_all W rs = Inr () \<longleftrightarrow> ?es = []"
    by (simp add: Promise_all_def split: list.splits)
  also have "\<dots> \<longleftrightarrow> set ?es = {}" by simp
  also have "\<dots> \<longleftrightarrow> (\<forall>r \<in> set rs. r = Inr ())"
    unfolding errors_set
  proof
    assume a: "{e. Inl e \<in> set rs} = {}"
    show "\<forall>r \<in> set rs. r = Inr ()"
    proof
      fix r assume "r \<in> set rs"
      with a show "r = Inr ()" by (cases r) auto
    qed
  next
    assume "\<forall>r \<in> set rs. r = Inr ()"
    then show "{e. Inl e \<in> set rs} = {}" by auto
  qed
  finally show ?thesis .
qed

lemma Promise_all_Inl: "Promise_all W rs = Inl e \<Longrightarrow> Inl e \<in> set rs"
proof -
  let ?es = "List.map_filter (\<lambda>r. case r of Inl e \<Rightarrow> Some e | Inr u \<Rightarrow> None) rs"
  assume a: "Promise_all W rs = Inl e"
  then have ne: "?es \<noteq> []" by (auto simp: Promise_all_def)
  with a have "e = ?es ! (race W mod length ?es)"
    by (cases ?es) (simp_all add: Promise_all_def)
  moreover have "race W mod length ?es < length ?es" using ne by simp
  ultimately have "e \<in> set ?es" using nth_mem by blast
  then show ?thesis unfolding errors_set by simp
qed

text \<open>What the authorizations chain settles with, by the answers to its requests.\<close>

lemma chain_result_answers:
  "fst (authorizations_chain v W tok c d) =
     (case http_get_authorizations W tok of
        Inl err \<Rightarrow> if unauthorized err then Inr () else Inl err
      | Inr auths \<Rightarrow>
          (let deletions =
                 (case Promise_all W
                         (map (\<lambda>a. case http_delete_authorization W (authorization_id a) tok of
                                      None \<Rightarrow> Inr ()
                                    | Some e \<Rightarrow> Inl e)
                            (filter (\<lambda>a. case access_token a of None \<Rightarrow> False
                                           | Some t \<Rightarrow> token t = fst (auth v c d)) auths)) of
                    Inr u \<Rightarrow> Inr ()
                  | Inl err \<Rightarrow> if unauthorized err then Inr () else Inl err)
           in case http_get_default_authorization W (fst (auth v c d)) of
                Inl err \<Rightarrow> if authorization_gone err \<or> unauthorized err then deletions else Inl err
              | Inr a \<Rightarrow>
                  if (case access_token a of None \<Rightarrow> None | Some t \<Rightarrow> token t) = Some tok
                  then Inr () else deletions))"
  unfolding chain_result defaultToken_result Let_def
  by (simp split: sum.splits)

lemma logout_result:
  assumes "tok \<noteq> []"
  shows "fst (logout v W (Some tok) c d) =
           (let ch = authorizations_chain v W tok c
                       (d\<lparr>calls := calls d @ [DeleteSession tok, GetAuthorizations tok]\<rparr>)
            in case http_delete_session W tok of
                 None \<Rightarrow> fst ch
               | Some e1 \<Rightarrow>
                   if session_gone e1 \<or> unauthorized e1 then fst ch
                   else if session_answer W < length (snd ch) then Inl e1
                   else (case fst ch of Inl e2 \<Rightarrow> Inl e2 | Inr u \<Rightarrow> Inl e1))"
  unfolding logout_unfold[OF assms] Let_def
  by (simp split: option.splits sum.splits)

text \<open>
  Claim C7, as amended. A logout without a token (no argument and no credential resolved,
  or an empty argument) succeeds and issues no request. A logout with a token succeeds
  exactly when each of its requests succeeded or failed in a way the code tolerates: for
  the session deletion, a 404 with id \<^verbatim>\<open>not_found\<close> for the resource \<^verbatim>\<open>session\<close> or a 401 with
  id \<^verbatim>\<open>unauthorized\<close>; for the request for the records, a 401 \<^verbatim>\<open>unauthorized\<close>; for the lookup
  of the default token, a 404 \<^verbatim>\<open>not_found\<close> for the resource \<^verbatim>\<open>authorization\<close> or a 401
  \<^verbatim>\<open>unauthorized\<close>, after either of which the deletions are made as when the default token
  is another one; for the deletions of the records, a 401 \<^verbatim>\<open>unauthorized\<close> as the first of
  their failures. An error that \<^verbatim>\<open>logout\<close> throws is never a 401 \<^verbatim>\<open>unauthorized\<close> response, and
  it is the error of the session deletion (not a tolerated one), of the request for the
  records, of the lookup of the default token (not a tolerated one) or of the deletion of
  a record that carries the current credential. \<^verbatim>\<open>Promise.all\<close> fulfils exactly when all its
  requests do and otherwise rejects with the error of one of them. A session deletion that
  fails in a way not tolerated always makes \<^verbatim>\<open>logout\<close> throw, and throw that error when its
  answer is the first to arrive.
\<close>

theorem logout_errors:
  "((arg = None \<and> \<not> truthy (fst (auth v c d)) \<or> arg = Some []) \<longrightarrow>
      fst (logout v W arg c d) = Inr () \<and> calls (snd (snd (logout v W arg c d))) = calls d)
   \<and> (tok \<noteq> [] \<longrightarrow>
        (fst (logout v W (Some tok) c d) = Inr () \<longleftrightarrow>
           (case http_delete_session W tok of
              None \<Rightarrow> True
            | Some err \<Rightarrow> session_gone err \<or> unauthorized err)
           \<and> (case http_get_authorizations W tok of
                Inl err \<Rightarrow> unauthorized err
              | Inr auths \<Rightarrow>
                  (let deletions_ok =
                         (case Promise_all W
                                 (map (\<lambda>a. case http_delete_authorization W (authorization_id a) tok of
                                              None \<Rightarrow> Inr ()
                                            | Some e \<Rightarrow> Inl e)
                                    (filter (\<lambda>a. case access_token a of None \<Rightarrow> False
                                                   | Some t \<Rightarrow> token t = fst (auth v c d)) auths)) of
                            Inr u \<Rightarrow> True
                          | Inl err \<Rightarrow> unauthorized err)
                   in case http_get_default_authorization W (fst (auth v c d)) of
                        Inl err \<Rightarrow> (authorization_gone err \<or> unauthorized err) \<and> deletions_ok
                      | Inr a \<Rightarrow>
                          (case access_token a of None \<Rightarrow> None | Some t \<Rightarrow> token t) = Some tok
                          \<or> deletions_ok))))
   \<and> (tok \<noteq> [] \<and> fst (logout v W (Some tok) c d) = Inl e \<longrightarrow>
        \<not> unauthorized e
        \<and> (http_delete_session W tok = Some e \<and> \<not> session_gone e
           \<or> http_get_authorizations W tok = Inl e
           \<or> (\<exists>auths. http_get_authorizations W tok = Inr auths
                 \<and> http_get_default_authorization W (fst (auth v c d)) = Inl e
                 \<and> \<not> authorization_gone e)
           \<or> (\<exists>auths a. http_get_authorizations W tok = Inr auths \<and> a \<in> set auths
                 \<and> (case access_token a of None \<Rightarrow> False | Some t \<Rightarrow> token t = fst (auth v c d))
                 \<and> http_delete_authorization W (authorization_id a) tok = Some e)))
   \<and> (\<forall>rs e'. (Promise_all W rs = Inr () \<longleftrightarrow> (\<forall>r \<in> set rs. r = Inr ()))
             \<and> (Promise_all W rs = Inl e' \<longrightarrow> Inl e' \<in> set rs))
   \<and> (\<forall>e1. tok \<noteq> [] \<and> http_delete_session W tok = Some e1
            \<and> \<not> session_gone e1 \<and> \<not> unauthorized e1 \<longrightarrow>
          (\<exists>e2. fst (logout v W (Some tok) c d) = Inl e2)
          \<and> (session_answer W = 0 \<longrightarrow> fst (logout v W (Some tok) c d) = Inl e1))"
proof -
  let ?d1 = "d\<lparr>calls := calls d @ [DeleteSession tok, GetAuthorizations tok]\<rparr>"
  let ?ch = "authorizations_chain v W tok c ?d1"
  let ?cur = "fst (auth v c d)"
  let ?dels = "\<lambda>auths. Promise_all W
                 (map (\<lambda>a. case http_delete_authorization W (authorization_id a) tok of
                              None \<Rightarrow> Inr ()
                            | Some e \<Rightarrow> Inl e)
                    (filter (\<lambda>a. case access_token a of None \<Rightarrow> False
                                   | Some t \<Rightarrow> token t = ?cur) auths))"
  let ?session_ok = "case http_delete_session W tok of
                       None \<Rightarrow> True
                     | Some err \<Rightarrow> session_gone err \<or> unauthorized err"
  let ?chain_ok = "case http_get_authorizations W tok of
                Inl err \<Rightarrow> unauthorized err
              | Inr auths \<Rightarrow>
                  (let deletions_ok =
                         (case ?dels auths of
                            Inr u \<Rightarrow> True
                          | Inl err \<Rightarrow> unauthorized err)
                   in case http_get_default_authorization W ?cur of
                        Inl err \<Rightarrow> (authorization_gone err \<or> unauthorized err) \<and> deletions_ok
                      | Inr a \<Rightarrow>
                          (case access_token a of None \<Rightarrow> None | Some t \<Rightarrow> token t) = Some tok
                          \<or> deletions_ok)"
  have r2: "fst ?ch =
     (case http_get_authorizations W tok of
        Inl err \<Rightarrow> if unauthorized err then Inr () else Inl err
      | Inr auths \<Rightarrow>
          (let deletions =
                 (case ?dels auths of
                    Inr u \<Rightarrow> Inr ()
                  | Inl err \<Rightarrow> if unauthorized err then Inr () else Inl err)
           in case http_get_default_authorization W ?cur of
                Inl err \<Rightarrow> if authorization_gone err \<or> unauthorized err then deletions else Inl err
              | Inr a \<Rightarrow>
                  if (case access_token a of None \<Rightarrow> None | Some t \<Rightarrow> token t) = Some tok
                  then Inr () else deletions))"
    unfolding chain_result_answers auth_set_calls_fst ..
  have chain_ok: "fst ?ch = Inr () \<longleftrightarrow> ?chain_ok"
    unfolding r2 Let_def by (auto split: sum.splits)
  have del_err: "\<exists>a. a \<in> set auths
        \<and> (case access_token a of None \<Rightarrow> False | Some t \<Rightarrow> token t = ?cur)
        \<and> http_delete_authorization W (authorization_id a) tok = Some x"
    if "?dels auths = Inl x" for auths x
  proof -
    from Promise_all_Inl[OF that] obtain a where
      a: "a \<in> set auths" "case access_token a of None \<Rightarrow> False | Some t \<Rightarrow> token t = ?cur"
      and "Inl x = (case http_delete_authorization W (authorization_id a) tok of
                      None \<Rightarrow> Inr ()
                    | Some e \<Rightarrow> Inl e)"
      by auto
    then have "http_delete_authorization W (authorization_id a) tok = Some x"
      by (auto split: option.splits)
    with a show ?thesis by blast
  qed
  have chain_err: "\<not> unauthorized x
        \<and> (http_get_authorizations W tok = Inl x
           \<or> (\<exists>auths. http_get_authorizations W tok = Inr auths
                 \<and> http_get_default_authorization W ?cur = Inl x
                 \<and> \<not> authorization_gone x)
           \<or> (\<exists>auths a. http_get_authorizations W tok = Inr auths \<and> a \<in> set auths
                 \<and> (case access_token a of None \<Rightarrow> False | Some t \<Rightarrow> token t = ?cur)
                 \<and> http_delete_authorization W (authorization_id a) tok = Some x))"
    if x: "fst ?ch = Inl x" for x
  proof (cases "http_get_authorizations W tok")
    case (Inl err)
    with x show ?thesis unfolding r2 by (auto split: if_splits)
  next
    case (Inr auths)
    have dels: "\<not> unauthorized x \<and> (\<exists>a. a \<in> set auths
        \<and> (case access_token a of None \<Rightarrow> False | Some t \<Rightarrow> token t = ?cur)
        \<and> http_delete_authorization W (authorization_id a) tok = Some x)"
      if "(case ?dels auths of
             Inr u \<Rightarrow> Inr ()
           | Inl err \<Rightarrow> if unauthorized err then Inr () else Inl err) = Inl x"
    proof (cases "?dels auths")
      case (Inl y)
      with that have "y = x" "\<not> unauthorized x" by (auto split: if_splits)
      with del_err[OF Inl] show ?thesis by simp
    next
      case (Inr u)
      with that show ?thesis by simp
    qed
    show ?thesis
    proof (cases "http_get_default_authorization W ?cur")
      case (Inl err)
      show ?thesis
      proof (cases "authorization_gone err \<or> unauthorized err")
        case True
        with x Inr Inl have "(case ?dels auths of
             Inr u \<Rightarrow> Inr ()
           | Inl err \<Rightarrow> if unauthorized err then Inr () else Inl err) = Inl x"
          unfolding r2 Let_def by simp
        from dels[OF this] Inr show ?thesis by blast
      next
        case False
        with x Inr Inl have "err = x" unfolding r2 Let_def by simp
        with False Inr Inl show ?thesis by blast
      qed
    next
      case a: (Inr a)
      from x Inr a have "(case ?dels auths of
             Inr u \<Rightarrow> Inr ()
           | Inl err \<Rightarrow> if unauthorized err then Inr () else Inl err) = Inl x"
        unfolding r2 Let_def by (simp split: if_splits)
      from dels[OF this] Inr show ?thesis by blast
    qed
  qed
  have lo: "fst (logout v W (Some tok) c d) =
           (case http_delete_session W tok of
                 None \<Rightarrow> fst ?ch
               | Some e1 \<Rightarrow>
                   if session_gone e1 \<or> unauthorized e1 then fst ?ch
                   else if session_answer W < length (snd ?ch) then Inl e1
                   else (case fst ?ch of Inl e2 \<Rightarrow> Inl e2 | Inr u \<Rightarrow> Inl e1))"
    if "tok \<noteq> []"
    using logout_result[OF that, of v W c d] by (simp add: Let_def)
  have success: "fst (logout v W (Some tok) c d) = Inr () \<longleftrightarrow> ?session_ok \<and> ?chain_ok"
    if "tok \<noteq> []"
    unfolding lo[OF that] chain_ok[symmetric]
    by (auto split: option.splits sum.splits)
  have failure: "\<not> unauthorized e
        \<and> (http_delete_session W tok = Some e \<and> \<not> session_gone e
           \<or> http_get_authorizations W tok = Inl e
           \<or> (\<exists>auths. http_get_authorizations W tok = Inr auths
                 \<and> http_get_default_authorization W ?cur = Inl e
                 \<and> \<not> authorization_gone e)
           \<or> (\<exists>auths a. http_get_authorizations W tok = Inr auths \<and> a \<in> set auths
                 \<and> (case access_token a of None \<Rightarrow> False | Some t \<Rightarrow> token t = ?cur)
                 \<and> http_delete_authorization W (authorization_id a) tok = Some e))"
    if t: "tok \<noteq> []" and e: "fst (logout v W (Some tok) c d) = Inl e"
  proof -
    from e have "(http_delete_session W tok = Some e \<and> \<not> session_gone e \<and> \<not> unauthorized e)
        \<or> fst ?ch = Inl e"
      unfolding lo[OF t] by (auto split: option.splits sum.splits if_splits)
    then show ?thesis
    proof
      assume "http_delete_session W tok = Some e \<and> \<not> session_gone e \<and> \<not> unauthorized e"
      then show ?thesis by blast
    next
      assume "fst ?ch = Inl e"
      from chain_err[OF this] show ?thesis by blast
    qed
  qed
  have session_fails: "(\<exists>e2. fst (logout v W (Some tok) c d) = Inl e2)
          \<and> (session_answer W = 0 \<longrightarrow> fst (logout v W (Some tok) c d) = Inl e1)"
    if "tok \<noteq> []" "http_delete_session W tok = Some e1" "\<not> session_gone e1" "\<not> unauthorized e1"
    for e1
  proof -
    from chain_first_stage[of v W tok c ?d1] have "0 < length (snd ?ch)" by auto
    then show ?thesis
      unfolding lo[OF that(1)] using that(2-4) by (auto split: sum.splits)
  qed
  have no_token: "fst (logout v W arg c d) = Inr () \<and> calls (snd (snd (logout v W arg c d))) = calls d"
    if "arg = None \<and> \<not> truthy (fst (auth v c d)) \<or> arg = Some []"
    using that auth_calls[of v c d]
    by (cases "auth v c d") (auto simp: logout_def truthy_def split: option.splits)
  show ?thesis
  proof (intro conjI impI allI)
    assume "arg = None \<and> \<not> truthy (fst (auth v c d)) \<or> arg = Some []"
    from no_token[OF this] show "fst (logout v W arg c d) = Inr ()" by (rule conjunct1)
  next
    assume "arg = None \<and> \<not> truthy (fst (auth v c d)) \<or> arg = Some []"
    from no_token[OF this] show "calls (snd (snd (logout v W arg c d))) = calls d" by (rule conjunct2)
  next
    assume "tok \<noteq> []"
    then show "fst (logout v W (Some tok) c d) = Inr () \<longleftrightarrow> ?session_ok \<and> ?chain_ok"
      by (rule success)
  next
    assume a: "tok \<noteq> [] \<and> fst (logout v W (Some tok) c d) = Inl e"
    from failure[OF conjunct1[OF a] conjunct2[OF a]] show "\<not> unauthorized e" by (rule conjunct1)
  next
    assume a: "tok \<noteq> [] \<and> fst (logout v W (Some tok) c d) = Inl e"
    from failure[OF conjunct1[OF a] conjunct2[OF a]]
    show "http_delete_session W tok = Some e \<and> \<not> session_gone e
           \<or> http_get_authorizations W tok = Inl e
           \<or> (\<exists>auths. http_get_authorizations W tok = Inr auths
                 \<and> http_get_default_authorization W ?cur = Inl e
                 \<and> \<not> authorization_gone e)
           \<or> (\<exists>auths a. http_get_authorizations W tok = Inr auths \<and> a \<in> set auths
                 \<and> (case access_token a of None \<Rightarrow> False | Some t \<Rightarrow> token t = ?cur)
                 \<and> http_delete_authorization W (authorization_id a) tok = Some e)"
      by (rule conjunct2)
  next
    fix rs e'
    show "Promise_all W rs = Inr () \<longleftrightarrow> (\<forall>r \<in> set rs. r = Inr ())" by (rule Promise_all_Inr)
  next
    fix rs e'
    assume "Promise_all W rs = Inl e'"
    then show "Inl e' \<in> set rs" by (rule Promise_all_Inl)
  next
    fix e1
    assume a: "tok \<noteq> [] \<and> http_delete_session W tok = Some e1
            \<and> \<not> session_gone e1 \<and> \<not> unauthorized e1"
    then have b: "tok \<noteq> []" "http_delete_session W tok = Some e1" "\<not> session_gone e1"
      "\<not> unauthorized e1" by simp_all
    from session_fails[OF b] show "\<exists>e2. fst (logout v W (Some tok) c d) = Inl e2" by (rule conjunct1)
  next
    fix e1
    assume a: "tok \<noteq> [] \<and> http_delete_session W tok = Some e1
            \<and> \<not> session_gone e1 \<and> \<not> unauthorized e1"
      and z: "session_answer W = 0"
    from a have b: "tok \<noteq> []" "http_delete_session W tok = Some e1" "\<not> session_gone e1"
      "\<not> unauthorized e1" by simp_all
    from session_fails[OF b] z show "fst (logout v W (Some tok) c d) = Inl e1" by blast
  qed
qed

theorem logout_errors_witness:
  "fst (logout heroku_vars good_server None fresh_client empty_deps) = Inr ()
   \<and> calls (snd (snd (logout heroku_vars good_server None fresh_client empty_deps))) = []
   \<and> fst (logout heroku_vars revoked_server (Some ''mypass'') mypass_client empty_deps) = Inr ()
   \<and> fst (logout heroku_vars broken_server (Some ''mypass'') mypass_client empty_deps)
       = Inl (HTTPError 500 server_error_body)
   \<and> fst (logout heroku_vars delete_fails_server (Some ''mypass'') mypass_client empty_deps) \<noteq> Inr ()
   \<and> fst (logout heroku_vars delete_fails_server (Some ''mypass'') mypass_client empty_deps)
       = Inl (HTTPError 500 server_error_body)"
proof -
  have tok: "''mypass'' \<noteq> []" by simp
  have cur: "fst (auth heroku_vars mypass_client empty_deps) = Some ''mypass''"
    by (simp add: auth_def mypass_client_def truthy_def)
  have none: "(None::string option) = None \<and> \<not> truthy (fst (auth heroku_vars fresh_client empty_deps))
              \<or> (None::string option) = Some []"
    by (simp add: auth_def Let_def truthy_def fresh_client_def empty_deps_def)
  note noop = logout_errors[of None heroku_vars fresh_client empty_deps good_server tok e,
      THEN conjunct1, THEN mp, OF none]
  from noop have 1: "fst (logout heroku_vars good_server None fresh_client empty_deps) = Inr ()"
    by (rule conjunct1)
  from noop have 2: "calls (snd (snd (logout heroku_vars good_server None fresh_client empty_deps))) = []"
    by (simp add: empty_deps_def)
  note revoked = logout_errors[of arg heroku_vars mypass_client empty_deps revoked_server "''mypass''" e,
      THEN conjunct2, THEN conjunct1, THEN mp, OF tok]
  have 3: "fst (logout heroku_vars revoked_server (Some ''mypass'') mypass_client empty_deps) = Inr ()"
    unfolding revoked
    by (simp add: revoked_server_def session_gone_def unauthorized_def http_status_def http_body_def
        session_gone_body_def unauthorized_body_def)
  have h: "''mypass'' \<noteq> [] \<and> http_delete_session broken_server ''mypass'' = Some (HTTPError 500 server_error_body)
      \<and> \<not> session_gone (HTTPError 500 server_error_body)
      \<and> \<not> unauthorized (HTTPError 500 server_error_body)"
    by (simp add: broken_server_def session_gone_def unauthorized_def http_status_def)
  have z: "session_answer broken_server = 0" by (simp add: broken_server_def good_server_def)
  note broken = logout_errors[of arg heroku_vars mypass_client empty_deps broken_server "''mypass''" e,
      THEN conjunct2, THEN conjunct2, THEN conjunct2, THEN conjunct2, THEN spec, THEN mp, OF h,
      THEN conjunct2, THEN mp, OF z]
  note deleting = logout_errors[of arg heroku_vars mypass_client empty_deps delete_fails_server "''mypass''" e,
      THEN conjunct2, THEN conjunct1, THEN mp, OF tok]
  have 5: "fst (logout heroku_vars delete_fails_server (Some ''mypass'') mypass_client empty_deps) \<noteq> Inr ()"
    unfolding deleting cur
    by (simp add: delete_fails_server_def good_server_def account_records_def Promise_all_def
        List.map_filter_simps unauthorized_def http_status_def)
  have 6: "fst (logout heroku_vars delete_fails_server (Some ''mypass'') mypass_client empty_deps)
       = Inl (HTTPError 500 server_error_body)"
    by (simp add: logout_def authorizations_chain_def defaultToken_def auth_def Promise_all_def
        catch_session_def catch_authorizations_def session_gone_def unauthorized_def
        authorization_gone_def has_http_def http_status_def http_body_def truthy_def Let_def
        List.map_filter_simps delete_fails_server_def good_server_def mypass_client_def
        fresh_client_def empty_deps_def account_records_def server_error_body_def)
  from 1 2 3 broken 5 6 show ?thesis by (intro conjI)
qed

text \<open>
  Claim C7 as stated fails for the lookup of the default token. The server answers it with
  404, id \<^verbatim>\<open>not_found\<close>, resource \<^verbatim>\<open>authorization\<close>: that is neither a session that is gone
  nor an unauthorized response, and by line 405 the error is absorbed; \<^verbatim>\<open>logout\<close> succeeds,
  having deleted the record that carries the credential.
\<close>

theorem logout_errors_counterexample:
  "logout heroku_vars no_default_server (Some ''mypass'') mypass_client empty_deps
     = (Inr (), mypass_client,
        empty_deps\<lparr>calls := [DeleteSession ''mypass'', GetAuthorizations ''mypass'',
                                GetDefaultAuthorization (Some ''mypass''),
                                DeleteAuthorization (Some ''auth-1'') ''mypass'']\<rparr>)
   \<and> http_get_default_authorization no_default_server (Some ''mypass'')
       = Inl (HTTPError 404 authorization_gone_body)
   \<and> \<not> session_gone (HTTPError 404 authorization_gone_body)
   \<and> \<not> unauthorized (HTTPError 404 authorization_gone_body)"
  by (simp add: logout_def authorizations_chain_def defaultToken_def auth_def Promise_all_def
      catch_session_def catch_authorizations_def session_gone_def unauthorized_def
      authorization_gone_def has_http_def http_status_def http_body_def truthy_def Let_def
      List.map_filter_simps no_default_server_def good_server_def mypass_client_def
      fresh_client_def empty_deps_def account_records_def authorization_gone_body_def)

subsection \<open>Login\<close>

text \<open>
  Each strategy assigns the new credential to \<^verbatim>\<open>this.heroku.auth\<close> before it returns, and
  the assignment throws: no strategy returns an entry, and none changes the client.
\<close>

lemma interactive_throws:
  "(\<exists>err. fst (interactive W e c d) = Inl err) \<and> fst (snd (interactive W e c d)) = c"
  by (auto simp: interactive_def set_auth_def split: prod.splits sum.splits)

lemma browser_throws:
  "(\<exists>err. fst (browser W c d) = Inl err) \<and> fst (snd (browser W c d)) = c"
  by (auto simp: browser_def set_auth_def Let_def split: sum.splits option.splits)

lemma sso_throws:
  "(\<exists>err. fst (sso W c d) = Inl err) \<and> fst (snd (sso W c d)) = c"
  by (auto simp: sso_def set_auth_def Let_def split: prod.splits sum.splits option.splits)

lemma strategy_throws:
  assumes "run_strategy W opts input c d = Some (r, c', d')"
  shows "(\<exists>err. r = Inl err) \<and> c' = c"
proof -
  from assms consider "browser W c d = (r, c', d')" | "interactive W (expiresIn opts) c d = (r, c', d')"
    | "sso W c d = (r, c', d')"
    by (auto simp: run_strategy_def split: if_splits)
  then show ?thesis
  proof cases
    case 1
    with browser_throws[of W c d] show ?thesis by simp
  next
    case 2
    with interactive_throws[of W "expiresIn opts" c d] show ?thesis by simp
  next
    case 3
    with sso_throws[of W c d] show ?thesis by simp
  qed
qed

lemma login_throws: "login n v config W opts c d \<noteq> Some (Inr (), c', d')"
proof (induction n arbitrary: c d)
  case 0
  then show ?case by simp
next
  case (Suc n)
  obtain r c1 d1 where prep: "login_prepare v config W opts c (loadSettings d) = (r, c1, d1)"
    by (cases "login_prepare v config W opts c (loadSettings d)")
  show ?case
  proof (cases r)
    case (Inl err)
    with prep show ?thesis by simp
  next
    case (Inr input)
    show ?thesis
    proof (cases "run_strategy W opts input c1 d1")
      case None
      with prep Inr Suc.IH[of c1 d1] show ?thesis by simp
    next
      case (Some res)
      obtain r2 c2 d2 where res: "res = (r2, c2, d2)" by (cases res)
      from strategy_throws[OF Some[unfolded res]] obtain err where "r2 = Inl err" by blast
      with prep Inr Some res show ?thesis by simp
    qed
  qed
qed

text \<open>
  \<^verbatim>\<open>saveToken\<close> itself, given an entry, stores it as the specification says: under the API
  host and under the git host there is then a machine with the entry's login and password
  and without \<^verbatim>\<open>method\<close> and \<^verbatim>\<open>org\<close>, its other properties as they were, in memory and on
  disk.
\<close>

lemma save_machine_fields:
  "save_machine entry m ''login'' = entry_login entry"
  "save_machine entry m ''password'' = entry_password entry"
  "save_machine entry m ''method'' = None"
  "save_machine entry m ''org'' = None"
  by (simp_all add: save_machine_def)

lemma save_machine_other:
  "k \<noteq> ''login'' \<Longrightarrow> k \<noteq> ''password'' \<Longrightarrow> k \<noteq> ''method'' \<Longrightarrow> k \<noteq> ''org'' \<Longrightarrow>
     save_machine entry m k = m k"
  by (simp add: save_machine_def)

lemma saveToken_store: "netrc_file (saveToken v entry d) = machines (saveToken v entry d)"
  by (simp add: saveToken_def Let_def)

lemma saveToken_host:
  assumes "host = apiHost v \<or> host = httpGitHost v"
  shows "\<exists>m0. machines (saveToken v entry d) host = Some (save_machine entry m0)
            \<and> (\<forall>k. k \<noteq> ''login'' \<and> k \<noteq> ''password'' \<and> k \<noteq> ''method'' \<and> k \<noteq> ''org'' \<longrightarrow>
                   m0 k = (case machines d host of None \<Rightarrow> None | Some m \<Rightarrow> m k))"
proof (cases "host = httpGitHost v")
  case True
  show ?thesis
  proof (cases "httpGitHost v = apiHost v")
    case same: True
    let ?m1 = "save_machine entry (case machines d host of None \<Rightarrow> Map.empty | Some m \<Rightarrow> m)"
    have "machines (saveToken v entry d) host = Some (save_machine entry ?m1)"
      using True same by (simp add: saveToken_def Let_def)
    moreover have "\<forall>k. k \<noteq> ''login'' \<and> k \<noteq> ''password'' \<and> k \<noteq> ''method'' \<and> k \<noteq> ''org'' \<longrightarrow>
                   ?m1 k = (case machines d host of None \<Rightarrow> None | Some m \<Rightarrow> m k)"
      by (simp add: save_machine_other split: option.splits)
    ultimately show ?thesis by blast
  next
    case False
    let ?m0 = "case machines d host of None \<Rightarrow> Map.empty | Some m \<Rightarrow> m"
    have "machines (saveToken v entry d) host = Some (save_machine entry ?m0)"
      using True False by (simp add: saveToken_def Let_def)
    moreover have "\<forall>k. ?m0 k = (case machines d host of None \<Rightarrow> None | Some m \<Rightarrow> m k)"
      by (simp split: option.splits)
    ultimately show ?thesis by blast
  qed
next
  case False
  with assms have h: "host = apiHost v" "httpGitHost v \<noteq> apiHost v" by auto
  let ?m0 = "case machines d host of None \<Rightarrow> Map.empty | Some m \<Rightarrow> m"
  have "machines (saveToken v entry d) host = Some (save_machine entry ?m0)"
    using h by (simp add: saveToken_def Let_def)
  moreover have "\<forall>k. ?m0 k = (case machines d host of None \<Rightarrow> None | Some m \<Rightarrow> m k)"
    by (simp split: option.splits)
  ultimately show ?thesis by blast
qed

lemma saveToken_machines:
  assumes "host = apiHost v \<or> host = httpGitHost v"
  shows "\<exists>m. machines (saveToken v entry d) host = Some m
           \<and> netrc_file (saveToken v entry d) host = Some m
           \<and> m ''login'' = entry_login entry \<and> m ''password'' = entry_password entry
           \<and> m ''method'' = None \<and> m ''org'' = None
           \<and> (\<forall>k. k \<noteq> ''login'' \<and> k \<noteq> ''password'' \<and> k \<noteq> ''method'' \<and> k \<noteq> ''org'' \<longrightarrow>
                  m k = (case machines d host of None \<Rightarrow> None | Some m0 \<Rightarrow> m0 k))"
proof -
  from saveToken_host[OF assms, of entry d] obtain m0 where
    m: "machines (saveToken v entry d) host = Some (save_machine entry m0)"
    and o: "\<forall>k. k \<noteq> ''login'' \<and> k \<noteq> ''password'' \<and> k \<noteq> ''method'' \<and> k \<noteq> ''org'' \<longrightarrow>
                   m0 k = (case machines d host of None \<Rightarrow> None | Some m \<Rightarrow> m k)"
    by blast
  show ?thesis
    using m o by (simp add: saveToken_store save_machine_fields save_machine_other)
qed

lemma saveSettings_store:
  "machines (saveSettings W d) = machines d" "netrc_file (saveSettings W d) = netrc_file d"
  by (simp_all add: saveSettings_def split: option.splits)

text \<open>
  Claim C8. On the sources as they are, no login succeeds, whatever the server answers:
  the assignment to \<^verbatim>\<open>this.heroku.auth\<close> in the chosen strategy throws before \<^verbatim>\<open>saveToken\<close> is
  reached. Here the user logs in interactively against a server on which every request
  succeeds, with an entry of an earlier login in the store. The new authorization is
  created on the server (the last request logged); \<^verbatim>\<open>login\<close> then throws a \<open>TypeError\<close> (that
  of the assignment, replaced in the \<^verbatim>\<open>catch\<close> of line 258 by that of the constructor, which
  finds no body on it); the store still holds the old entry with its \<^verbatim>\<open>method\<close>, and nothing
  under the git host; and the credential of the client is the old password, which the
  logout of the previous entry resolved from the store.
\<close>

theorem login_assignment_throws:
  "login n v config W opts c d \<noteq> Some (Inr (), c', d')
   \<and> map_option
       (\<lambda>r. (fst r, priv_auth (fst (snd r)),
              netrc_file (snd (snd r)) ''api.heroku.com'', netrc_file (snd (snd r)) ''git.heroku.com'',
              machines (snd (snd r)) ''git.heroku.com'', last (calls (snd (snd r)))))
       (login 1 heroku_vars example_config good_server interactive_opts fresh_client
          (empty_deps\<lparr>netrc_file := old_netrc\<rparr>))
     = Some (Inl (TypeError ''Cannot read property message of undefined''),
             Some ''mypass'', old_netrc ''api.heroku.com'', None, None,
             PostAuthorizations ''me@example.com'' ''secret'' 31536000 None)"
proof -
  have "map_option
       (\<lambda>r. (fst r, priv_auth (fst (snd r)),
              netrc_file (snd (snd r)) ''api.heroku.com'', netrc_file (snd (snd r)) ''git.heroku.com'',
              machines (snd (snd r)) ''git.heroku.com'', last (calls (snd (snd r)))))
       (login 1 heroku_vars example_config good_server interactive_opts fresh_client
          (empty_deps\<lparr>netrc_file := old_netrc\<rparr>))
     = Some (Inl (TypeError ''Cannot read property message of undefined''),
             Some ''mypass'', old_netrc ''api.heroku.com'', None, None,
             PostAuthorizations ''me@example.com'' ''secret'' 31536000 None)"
    unfolding One_nat_def login.simps
    by (simp add: login_defs good_server_def interactive_opts_def fresh_client_def empty_deps_def
        old_netrc_def heroku_vars_def account_records_def
        throw_new_HerokuAPIError_def new_HerokuAPIError_def)
  with login_throws[of n v config W opts c d c' d'] show ?thesis by (rule conjI)
qed

lemma throw_new_wrapped:
  "err_body err = Some b \<Longrightarrow> message b = Some m \<Longrightarrow> m \<noteq> [] \<Longrightarrow>
     throw_new_HerokuAPIError err = HerokuAPIError (HerokuAPIError_message m b) err"
  by (simp add: throw_new_HerokuAPIError_def new_HerokuAPIError_def)

lemma throw_new_raw:
  "err_body err = Some b \<Longrightarrow> \<not> truthy (message b) \<Longrightarrow> throw_new_HerokuAPIError err = err"
  by (simp add: throw_new_HerokuAPIError_def new_HerokuAPIError_def truthy_def split: option.splits)

lemma login_error_thrown:
  "login n v config W opts c d = Some (Inl e, c', d') \<Longrightarrow> \<exists>err0. e = throw_new_HerokuAPIError err0"
proof (induction n arbitrary: c d)
  case 0
  then show ?case by simp
next
  case (Suc n)
  obtain r c1 d1 where prep: "login_prepare v config W opts c (loadSettings d) = (r, c1, d1)"
    by (cases "login_prepare v config W opts c (loadSettings d)")
  show ?case
  proof (cases r)
    case (Inl err)
    with Suc.prems prep show ?thesis by auto
  next
    case (Inr input)
    show ?thesis
    proof (cases "run_strategy W opts input c1 d1")
      case None
      with Suc.prems prep Inr have "login n v config W opts c1 d1 = Some (Inl e, c', d')" by simp
      from Suc.IH[OF this] show ?thesis .
    next
      case (Some res)
      obtain r2 c2 d2 where res: "res = (r2, c2, d2)" by (cases res)
      with Suc.prems prep Inr Some show ?thesis by (cases r2) auto
    qed
  qed
qed

text \<open>
  Claim C9, as amended. An error that a login strategy throws is passed to the constructor
  of the wrapped error by the \<^verbatim>\<open>catch\<close> of \<^verbatim>\<open>login\<close>, and what the constructor gives is what
  \<^verbatim>\<open>login\<close> throws; every error \<^verbatim>\<open>login\<close> throws has come this way. For an error whose body has
  a non-empty message that is the wrapped error with the message built from the body; for
  an error whose body has no message it is the error itself, unchanged.
\<close>

theorem login_wraps_errors:
  "(login_prepare v config W opts c (loadSettings d) = (Inr input, c1, d1)
      \<and> run_strategy W opts input c1 d1 = Some (Inl err, c2, d2) \<longrightarrow>
      login (Suc n) v config W opts c d = Some (Inl (throw_new_HerokuAPIError err), c2, d2))
   \<and> (login n v config W opts c d = Some (Inl e, c', d') \<longrightarrow>
        (\<exists>err0. e = throw_new_HerokuAPIError err0))
   \<and> (\<forall>b m. err_body err = Some b \<and> message b = Some m \<and> m \<noteq> [] \<longrightarrow>
        throw_new_HerokuAPIError err = HerokuAPIError (HerokuAPIError_message m b) err)
   \<and> (\<forall>b. err_body err = Some b \<and> \<not> truthy (message b) \<longrightarrow> throw_new_HerokuAPIError err = err)"
  using login_error_thrown[of n v config W opts c d e c' d'] throw_new_wrapped[of err] throw_new_raw[of err]
  by simp

theorem login_wraps_errors_witness:
  "map_option fst (login 1 heroku_vars example_config explaining_server interactive_opts fresh_client empty_deps)
     = Some (Inl (HerokuAPIError
                    (''Invalid credentials provided.'' @ [CHR 0x0A, CHR 0x0A] @ ''Error ID: unauthorized'')
                    (HTTPError 401 (unauthorized_body\<lparr>message := Some ''Invalid credentials provided.''\<rparr>))))"
proof -
  let ?err = "HTTPError 401 (unauthorized_body\<lparr>message := Some ''Invalid credentials provided.''\<rparr>)"
  let ?d1 = "empty_deps"
  let ?d2 = "empty_deps\<lparr>prompted := 2,
       calls := [PostAuthorizations ''me@example.com'' ''secret'' 31536000 None]\<rparr>"
  have prep: "login_prepare heroku_vars example_config explaining_server interactive_opts fresh_client
                (loadSettings empty_deps) = (Inr ''interactive'', fresh_client, ?d1)"
    by (simp add: login_defs interactive_opts_def empty_deps_def)
  have run: "run_strategy explaining_server interactive_opts ''interactive'' fresh_client ?d1
               = Some (Inl ?err, fresh_client, ?d2)"
    by (simp add: login_defs explaining_server_def good_server_def interactive_opts_def empty_deps_def
        unauthorized_body_def)
  have body: "err_body ?err = Some (unauthorized_body\<lparr>message := Some ''Invalid credentials provided.''\<rparr>)"
    by simp
  have msg: "HerokuAPIError_message ''Invalid credentials provided.''
               (unauthorized_body\<lparr>message := Some ''Invalid credentials provided.''\<rparr>)
             = ''Invalid credentials provided.'' @ [CHR 0x0A, CHR 0x0A] @ ''Error ID: unauthorized''"
    by (simp add: HerokuAPIError_message_def HerokuAPIError_info_def unauthorized_body_def)
  from login_wraps_errors[of heroku_vars example_config explaining_server interactive_opts fresh_client
      empty_deps "''interactive''" fresh_client ?d1 ?err fresh_client ?d2 0] prep run body msg
  show ?thesis by simp
qed

text \<open>
  Claim C9 as stated fails for an error whose body has no message: the server rejects the
  password with a 401 and the body \<^verbatim>\<open>{id: 'unauthorized'}\<close>, and \<^verbatim>\<open>login\<close> throws that
  transport error itself.
\<close>

theorem login_raw_error_counterexample:
  "map_option fst (login 1 heroku_vars example_config rejecting_server interactive_opts fresh_client empty_deps)
     = Some (Inl (HTTPError 401 unauthorized_body))"
  unfolding One_nat_def login.simps
  by (simp add: login_defs rejecting_server_def good_server_def interactive_opts_def empty_deps_def
      unauthorized_body_def throw_new_HerokuAPIError_def new_HerokuAPIError_def)

text \<open>
  An error that has no body at all (a rejected prompt, or the error \<^verbatim>\<open>login\<close> raises itself
  when \<^verbatim>\<open>HEROKU_API_KEY\<close> is set) makes the constructor read a property of \<^verbatim>\<open>undefined\<close>:
  what \<^verbatim>\<open>login\<close> throws then is a \<open>TypeError\<close>, and the original error is lost.
\<close>

lemma login_error_without_body:
  "map_option fst (login 1 heroku_vars example_config no_terminal interactive_opts fresh_client empty_deps)
     = Some (Inl (TypeError ''Cannot read property message of undefined''))"
  "map_option fst (login 1 heroku_vars example_config good_server interactive_opts fresh_client
                     (empty_deps\<lparr>env := [''HEROKU_API_KEY'' \<mapsto> ''key'']\<rparr>))
     = Some (Inl (TypeError ''Cannot read property message of undefined''))"
  unfolding One_nat_def login.simps
  by (simp_all add: login_defs no_terminal_def good_server_def interactive_opts_def empty_deps_def
      throw_new_HerokuAPIError_def new_HerokuAPIError_def)


end
